theory Spec2Isabelle
  imports Main
begin

section \<open>Seat reservation of the movie reservation system\<close>

text \<open>
  The development embeds the two seat-inventory handlers of
  \<^verbatim>\<open>src/app/api/[[...slugs]]/route.ts\<close>, \<^verbatim>\<open>POST /screening/:id/reserve\<close> and
  \<^verbatim>\<open>DELETE /screening/:id/cancel\<close>, together with the rows of the \<^verbatim>\<open>screening\<close> and
  \<^verbatim>\<open>reservation\<close> tables they read and write.

  Modelling decisions:
  \<^item> A handler is a function of what the framework hands it once \<^verbatim>\<open>authMiddleware\<close> has
    let the request through and the schemas have accepted it: the path parameter, the
    body, the id of the session's user; it returns its reply and the store it leaves.
  \<^item> The type variable \<open>'n\<close> stands for the JavaScript number values other than \<open>NaN\<close>,
    fractions and numbers of any magnitude included, with \<open>-0\<close> and \<open>+0\<close> one value
    (\<^verbatim>\<open>===\<close>, \<open>String\<close> and JSON do not tell them apart). \<^verbatim>\<open>z.number()\<close> admits no \<open>NaN\<close>;
    the numbers of a request are finite, and a finite number stored in a \<^verbatim>\<open>jsonb\<close> column
    is read back as it was written.
  \<^item> The built-in functions \<open>String\<close> and \<open>Number\<close> are not code of the repository. The
    handlers take them from a runtime, a record of the two functions, and nothing is
    assumed of them but, where a theorem says so, the law of the language that \<open>Number\<close>
    reads back every number that \<open>String\<close> has printed (\<open>round_trip\<close>). What \<open>Number\<close>
    makes of any other string (\<^verbatim>\<open>"A"\<close>, \<^verbatim>\<open>"01"\<close>, \<^verbatim>\<open>"0x1"\<close>) is left to the runtime. Every
    theorem is stated for every runtime, and so holds of the functions of JavaScript.
  \<^item> A table is the list of its rows in insertion order; \<^verbatim>\<open>.then(res => res[0])\<close> is the
    first row that satisfies the \<^verbatim>\<open>where\<close> clause.
  \<^item> \<^verbatim>\<open>crypto.randomUUID()\<close> and \<^verbatim>\<open>new Date()\<close> are arguments of the handler. An insert
    whose id is already a primary key of the table, or whose screening id references no
    screening, is rejected by the store; the handler does not catch it.
  \<^item> The columns \<^verbatim>\<open>price\<close> and \<^verbatim>\<open>total_price\<close> are \<^verbatim>\<open>numeric(10, 2)\<close>, which the driver
    hands over as decimal strings; they are kept as strings. The column \<^verbatim>\<open>taken_seats\<close> is
    \<^verbatim>\<open>NOT NULL\<close>, so \<^verbatim>\<open>screening.takenSeats || []\<close> is \<^verbatim>\<open>screening.takenSeats\<close>.
\<close>

subsection \<open>Numbers, \<open>String\<close> and \<open>Number\<close>\<close>

text \<open>The result of \<open>Number\<close>: \<open>NaN\<close>, or a number.\<close>

datatype 'n jsnum = NaN | Num 'n

text \<open>Strict equality \<^verbatim>\<open>===\<close> on numbers: \<open>NaN\<close> equals nothing, itself included.\<close>

fun strict_eq :: "'n jsnum \<Rightarrow> 'n jsnum \<Rightarrow> bool" where
  "strict_eq (Num a) (Num b) = (a = b)"
| "strict_eq _ _ = False"

record 'n runtime =
  String_js :: "'n \<Rightarrow> string"
  Number_js :: "string \<Rightarrow> 'n jsnum"

text \<open>
  The law of \<open>Number::toString\<close>: for every number \<open>x\<close> other than \<open>NaN\<close>,
  \<open>Number (String x)\<close> is \<open>x\<close>.
\<close>

definition round_trip :: "'n runtime \<Rightarrow> bool" where
  "round_trip rt = (\<forall>x. Number_js rt (String_js rt x) = Num x)"

subsection \<open>Data model (\<^verbatim>\<open>src/types.ts\<close>, the table definitions)\<close>

record 'n Seat =
  row :: string
  number :: 'n
  isAvailable :: bool

text \<open>An element of \<^verbatim>\<open>body.seats\<close>: \<^verbatim>\<open>z.object({ row: z.number(), number: z.number() })\<close>.\<close>

record 'n body_seat =
  b_row :: 'n
  b_number :: 'n

record 'n Screening =
  s_id :: string
  movieId :: string
  auditoriumId :: string
  startTime :: int
  endTime :: int
  price :: string
  takenSeats :: "'n Seat list"

record 'n Reservation =
  r_id :: string
  userId :: string
  screeningId :: string
  seats :: "'n Seat list"
  totalPrice :: string
  createdAt :: int

record 'n db =
  screeningTable :: "'n Screening list"
  reservationTable :: "'n Reservation list"

text \<open>
  What a handler leaves to the framework: the status it set (200 unless set) with the
  object it returned, or an exception of the store that it did not catch.
\<close>

datatype body =
    Message string
  | MessageWithId string string
  | Error string

datatype response =
    Reply nat body
  | Thrown

subsection \<open>The store\<close>

text \<open>\<^verbatim>\<open>db.select().from(screeningTable).where(eq(id, screeningId)).then(res => res[0])\<close>\<close>

definition select_screening :: "'n db \<Rightarrow> string \<Rightarrow> 'n Screening option" where
  "select_screening d sid = find (\<lambda>s. s_id s = sid) (screeningTable d)"

text \<open>\<^verbatim>\<open>db.update(screeningTable).set({ takenSeats }).where(eq(id, screeningId))\<close>\<close>

definition update_takenSeats :: "'n db \<Rightarrow> string \<Rightarrow> 'n Seat list \<Rightarrow> 'n db" where
  "update_takenSeats d sid ts =
     d\<lparr>screeningTable :=
         map (\<lambda>s. if s_id s = sid then s\<lparr>takenSeats := ts\<rparr> else s) (screeningTable d)\<rparr>"

text \<open>
  \<^verbatim>\<open>db.insert(reservationTable).values(r)\<close>: \<open>None\<close> when the primary key or the foreign
  key to \<^verbatim>\<open>screening\<close> rejects the row.
\<close>

definition insert_reservation :: "'n db \<Rightarrow> 'n Reservation \<Rightarrow> 'n db option" where
  "insert_reservation d r =
     (if r_id r \<in> set (map r_id (reservationTable d))
         \<or> screeningId r \<notin> set (map s_id (screeningTable d))
      then None
      else Some (d\<lparr>reservationTable := reservationTable d @ [r]\<rparr>))"

text \<open>The rows of \<^verbatim>\<open>where(and(eq(screeningId, ...), eq(userId, ...)))\<close>, and the first.\<close>

definition reservations_of :: "'n db \<Rightarrow> string \<Rightarrow> string \<Rightarrow> 'n Reservation list" where
  "reservations_of d sid uid =
     filter (\<lambda>r. screeningId r = sid \<and> userId r = uid) (reservationTable d)"

definition select_reservation :: "'n db \<Rightarrow> string \<Rightarrow> string \<Rightarrow> 'n Reservation option" where
  "select_reservation d sid uid =
     (case reservations_of d sid uid of [] \<Rightarrow> None | r # _ \<Rightarrow> Some r)"

text \<open>\<^verbatim>\<open>db.delete(reservationTable).where(eq(id, reservation.id))\<close>\<close>

definition delete_reservation :: "'n db \<Rightarrow> string \<Rightarrow> 'n db" where
  "delete_reservation d rid =
     d\<lparr>reservationTable := filter (\<lambda>r. r_id r \<noteq> rid) (reservationTable d)\<rparr>"

subsection \<open>\<^verbatim>\<open>POST /screening/:id/reserve\<close>\<close>

text \<open>
  The callback of \<^verbatim>\<open>takenSeats.find\<close> in the conflict check:
  \<^verbatim>\<open>Number(s.row) === seat.row && Number(s.number) === seat.number\<close>. The stored
  \<^verbatim>\<open>s.number\<close> is a number, which \<open>Number\<close> returns as it is.
\<close>

definition taken_by :: "'n runtime \<Rightarrow> 'n body_seat \<Rightarrow> 'n Seat \<Rightarrow> bool" where
  "taken_by rt seat s =
     (strict_eq (Number_js rt (row s)) (Num (b_row seat))
      \<and> strict_eq (Num (number s)) (Num (b_number seat)))"

text \<open>The \<^verbatim>\<open>for (const seat of seats)\<close> loop: the first requested seat found taken.\<close>

fun first_taken ::
  "'n runtime \<Rightarrow> 'n Seat list \<Rightarrow> 'n body_seat list \<Rightarrow> 'n body_seat option" where
  "first_taken rt ts [] = None"
| "first_taken rt ts (seat # rest) =
     (if find (taken_by rt seat) ts \<noteq> None then Some seat else first_taken rt ts rest)"

text \<open>\<^verbatim>\<open>({ row: String(seat.row), number: seat.number, isAvailable: false })\<close>\<close>

definition to_Seat :: "'n runtime \<Rightarrow> 'n body_seat \<Rightarrow> 'n Seat" where
  "to_Seat rt seat =
     \<lparr>row = String_js rt (b_row seat), number = b_number seat, isAvailable = False\<rparr>"

text \<open>
  \<^verbatim>\<open>`Seat row ${seat.row} number ${seat.number} is already taken`\<close>: a template prints a
  number as \<open>String\<close> does.
\<close>

definition taken_message :: "'n runtime \<Rightarrow> 'n body_seat \<Rightarrow> string" where
  "taken_message rt seat =
     ''Seat row '' @ String_js rt (b_row seat) @ '' number '' @ String_js rt (b_number seat)
       @ '' is already taken''"

definition reserve ::
  "'n runtime \<Rightarrow> string \<Rightarrow> 'n body_seat list \<Rightarrow> string \<Rightarrow> string \<Rightarrow> int \<Rightarrow> 'n db
     \<Rightarrow> response \<times> 'n db" where
  "reserve rt sid bseats uid randomUUID now d =
     (case select_screening d sid of
        None \<Rightarrow> (Reply 404 (Error ''Screening not found''), d)
      | Some screening \<Rightarrow>
          (case first_taken rt (takenSeats screening) bseats of
             Some seat \<Rightarrow> (Reply 400 (Error (taken_message rt seat)), d)
           | None \<Rightarrow>
               let updatedTakenSeats = takenSeats screening @ map (to_Seat rt) bseats;
                   d1 = update_takenSeats d sid updatedTakenSeats;
                   reservation =
                     \<lparr>r_id = randomUUID, userId = uid, screeningId = sid,
                      seats = map (to_Seat rt) bseats, totalPrice = price screening,
                      createdAt = now\<rparr>
               in (case insert_reservation d1 reservation of
                     None \<Rightarrow> (Thrown, d1)
                   | Some d2 \<Rightarrow>
                       (Reply 200 (MessageWithId ''Reservation successful'' randomUUID), d2))))"

subsection \<open>\<^verbatim>\<open>DELETE /screening/:id/cancel\<close>\<close>

text \<open>
  The callback of \<^verbatim>\<open>reservation.seats.find\<close>:
  \<^verbatim>\<open>Number(rSeat.row) === Number(seat.row) && Number(rSeat.number) === Number(seat.number)\<close>.
\<close>

definition same_seat :: "'n runtime \<Rightarrow> 'n Seat \<Rightarrow> 'n Seat \<Rightarrow> bool" where
  "same_seat rt seat rSeat =
     (strict_eq (Number_js rt (row rSeat)) (Number_js rt (row seat))
      \<and> strict_eq (Num (number rSeat)) (Num (number seat)))"

definition cancel :: "'n runtime \<Rightarrow> string \<Rightarrow> string \<Rightarrow> 'n db \<Rightarrow> response \<times> 'n db" where
  "cancel rt sid uid d =
     (case select_reservation d sid uid of
        None \<Rightarrow> (Reply 404 (Error ''Reservation not found''), d)
      | Some reservation \<Rightarrow>
          let d1 = delete_reservation d (r_id reservation) in
          (case select_screening d1 sid of
             None \<Rightarrow> (Reply 200 (Message ''Reservation cancelled successfully''), d1)
           | Some screening \<Rightarrow>
               let updatedTakenSeats =
                     filter (\<lambda>seat. find (same_seat rt seat) (seats reservation) = None)
                       (takenSeats screening)
               in (Reply 200 (Message ''Reservation cancelled successfully''),
                   update_takenSeats d1 sid updatedTakenSeats)))"

subsection \<open>The handler as the store sees it: one statement at a time\<close>

text \<open>
  Each \<^verbatim>\<open>await\<close> of the reserve handler hands one statement to the store; the code
  between two \<^verbatim>\<open>await\<close>s runs without interruption, and statements of other requests may
  run in between. A request is the arguments of the handler; its task records where the
  handler stands: before the \<^verbatim>\<open>select\<close>, holding the screening it read and about to
  \<^verbatim>\<open>update\<close>, about to \<^verbatim>\<open>insert\<close>, or finished.
\<close>

record 'n request =
  q_sid :: string
  q_seats :: "'n body_seat list"
  q_uid :: string
  q_uuid :: string
  q_now :: int

datatype 'n task =
    Start
  | Selected "'n Screening"
  | Updated "'n Screening"
  | Finished response

fun reserve_step ::
  "'n runtime \<Rightarrow> 'n request \<Rightarrow> 'n task \<Rightarrow> 'n db \<Rightarrow> 'n task \<times> 'n db" where
  "reserve_step rt q Start d =
     (case select_screening d (q_sid q) of
        None \<Rightarrow> (Finished (Reply 404 (Error ''Screening not found'')), d)
      | Some screening \<Rightarrow>
          (case first_taken rt (takenSeats screening) (q_seats q) of
             Some seat \<Rightarrow> (Finished (Reply 400 (Error (taken_message rt seat))), d)
           | None \<Rightarrow> (Selected screening, d)))"
| "reserve_step rt q (Selected screening) d =
     (Updated screening,
      update_takenSeats d (q_sid q) (takenSeats screening @ map (to_Seat rt) (q_seats q)))"
| "reserve_step rt q (Updated screening) d =
     (case insert_reservation d
             \<lparr>r_id = q_uuid q, userId = q_uid q, screeningId = q_sid q,
              seats = map (to_Seat rt) (q_seats q), totalPrice = price screening,
              createdAt = q_now q\<rparr> of
        None \<Rightarrow> (Finished Thrown, d)
      | Some d2 \<Rightarrow>
          (Finished (Reply 200 (MessageWithId ''Reservation successful'' (q_uuid q))), d2))"
| "reserve_step rt q (Finished r) d = (Finished r, d)"

text \<open>
  A schedule names, statement by statement, the request whose handler runs next.
\<close>

fun exec ::
  "'n runtime \<Rightarrow> 'n request list \<Rightarrow> nat list \<Rightarrow> 'n task list \<times> 'n db
     \<Rightarrow> 'n task list \<times> 'n db" where
  "exec rt qs [] c = c"
| "exec rt qs (i # sched) (ts, d) =
     (if i < length ts \<and> i < length qs
      then (case reserve_step rt (qs ! i) (ts ! i) d of
              (t, d') \<Rightarrow> exec rt qs sched (ts[i := t], d'))
      else exec rt qs sched (ts, d))"

definition succeeded :: "'n task \<Rightarrow> bool" where
  "succeeded t = (case t of Finished (Reply st _) \<Rightarrow> st = 200 | _ \<Rightarrow> False)"

subsection \<open>Sequences of calls\<close>

datatype 'n op =
    Reserve string "'n body_seat list" string string int
  | Cancel string string

fun handle :: "'n runtime \<Rightarrow> 'n op \<Rightarrow> 'n db \<Rightarrow> response \<times> 'n db" where
  "handle rt (Reserve sid bseats uid uuid now) d = reserve rt sid bseats uid uuid now d"
| "handle rt (Cancel sid uid) d = cancel rt sid uid d"

fun run :: "'n runtime \<Rightarrow> 'n db \<Rightarrow> 'n op list \<Rightarrow> response list \<times> 'n db" where
  "run rt d [] = ([], d)"
| "run rt d (c # cs) =
     (case handle rt c d of (r, d1) \<Rightarrow> (case run rt d1 cs of (rs, d2) \<Rightarrow> (r # rs, d2)))"

subsection \<open>Seats as (row, number) pairs; the properties of a store\<close>

text \<open>
  A stored seat is identified by its row, the string as it is stored, and its number. The
  taken-seat set of a screening is the set of these pairs over its \<^verbatim>\<open>takenSeats\<close>. A
  requested seat is stored under the row that \<open>String\<close> prints.
\<close>

definition place :: "'n Seat \<Rightarrow> string \<times> 'n" where
  "place s = (row s, number s)"

definition places :: "'n Seat list \<Rightarrow> (string \<times> 'n) set" where
  "places ts = set (map place ts)"

definition requested :: "'n runtime \<Rightarrow> 'n body_seat \<Rightarrow> string \<times> 'n" where
  "requested rt seat = (String_js rt (b_row seat), b_number seat)"

text \<open>
  Two conditions on the row of a stored seat. It is printed when it is the string that
  \<open>String\<close> prints for the number it reads as, as every row that Reserve writes is. It
  is plain when it is printed or reads as no number at all: \<^verbatim>\<open>"1"\<close> and \<^verbatim>\<open>"A"\<close> are plain,
  \<^verbatim>\<open>"01"\<close>, another spelling of 1, is not.
\<close>

definition printed_row :: "'n runtime \<Rightarrow> 'n Seat \<Rightarrow> bool" where
  "printed_row rt s =
     (case Number_js rt (row s) of NaN \<Rightarrow> False | Num x \<Rightarrow> row s = String_js rt x)"

definition plain_row :: "'n runtime \<Rightarrow> 'n Seat \<Rightarrow> bool" where
  "plain_row rt s =
     (case Number_js rt (row s) of NaN \<Rightarrow> True | Num x \<Rightarrow> row s = String_js rt x)"

text \<open>The active reservations of a screening, and the seats they hold together.\<close>

definition bookings :: "'n db \<Rightarrow> string \<Rightarrow> 'n Reservation list" where
  "bookings d sid = filter (\<lambda>r. screeningId r = sid) (reservationTable d)"

definition reserved :: "'n db \<Rightarrow> string \<Rightarrow> (string \<times> 'n) set" where
  "reserved d sid = (\<Union>r \<in> set (bookings d sid). places (seats r))"

definition no_drift :: "'n db \<Rightarrow> string \<Rightarrow> bool" where
  "no_drift d sid =
     (case select_screening d sid of
        None \<Rightarrow> True
      | Some screening \<Rightarrow> places (takenSeats screening) = reserved d sid)"

text \<open>No seat is held by two reservations of the list.\<close>

fun disjoint_bookings :: "'n Reservation list \<Rightarrow> bool" where
  "disjoint_bookings [] = True"
| "disjoint_bookings (r # rs) =
     ((\<forall>r' \<in> set rs. places (seats r) \<inter> places (seats r') = {}) \<and> disjoint_bookings rs)"

definition single_owner :: "'n db \<Rightarrow> string \<Rightarrow> bool" where
  "single_owner d sid = disjoint_bookings (bookings d sid)"

text \<open>Every seat held by a reservation of the screening has a printed row.\<close>

definition printed_bookings :: "'n runtime \<Rightarrow> 'n db \<Rightarrow> string \<Rightarrow> bool" where
  "printed_bookings rt d sid =
     list_all (\<lambda>r. list_all (printed_row rt) (seats r)) (bookings d sid)"

text \<open>The primary key of \<^verbatim>\<open>reservation\<close>.\<close>

definition unique_ids :: "'n db \<Rightarrow> bool" where
  "unique_ids d = distinct (map r_id (reservationTable d))"

text \<open>
  The state of \<open>n\<close> overlapping calls for one seat once the call \<open>w\<close> has read the
  screening \<open>sc\<close> and written the seat: the screening holds the seat; every other call
  has not started or has been refused; the call \<open>w\<close> has finished, or is about to insert
  a row whose id is not in use.
\<close>

definition settled ::
  "'n runtime \<Rightarrow> 'n request list \<Rightarrow> string \<Rightarrow> 'n body_seat \<Rightarrow> nat \<Rightarrow> 'n Screening
     \<Rightarrow> 'n task list \<times> 'n db \<Rightarrow> bool" where
  "settled rt qs sid seat w sc c =
     (case c of (ts, d) \<Rightarrow>
        length ts = length qs
        \<and> (case select_screening d sid of
              None \<Rightarrow> False
            | Some sc' \<Rightarrow> requested rt seat \<in> places (takenSeats sc'))
        \<and> list_all (\<lambda>j. j = w \<or> ts ! j = Start
                          \<or> ts ! j = Finished (Reply 400 (Error (taken_message rt seat))))
             [0..<length ts]
        \<and> (ts ! w = Finished (Reply 200 (MessageWithId ''Reservation successful''
                                  (q_uuid (qs ! w))))
            \<or> (ts ! w = Updated sc
                \<and> q_uuid (qs ! w) \<notin> set (map r_id (reservationTable d)))))"

subsection \<open>A runtime on the integers, and example stores\<close>

text \<open>
  The examples run on integers, with a runtime that prints the signed decimal numeral
  and reads it back, ignoring white space around it and taking the empty string for 0,
  and that reads every other string as \<open>NaN\<close>. On the stores below, whose rows are
  \<^verbatim>\<open>"1"\<close>, \<^verbatim>\<open>"2"\<close> and \<^verbatim>\<open>"A"\<close>, and on the small integers requested there, this is what
  JavaScript prints and reads.
\<close>

definition digit_char :: "nat \<Rightarrow> char" where
  "digit_char d = char_of (48 + d)"

fun digits :: "nat \<Rightarrow> string" where
  "digits n = (if n < 10 then [digit_char n] else digits (n div 10) @ [digit_char (n mod 10)])"

declare digits.simps [simp del]

definition print_int :: "int \<Rightarrow> string" where
  "print_int i = (if i < 0 then CHR ''-'' # digits (nat (- i)) else digits (nat i))"

definition is_digit :: "char \<Rightarrow> bool" where
  "is_digit c = (48 \<le> (of_char c :: nat) \<and> (of_char c :: nat) \<le> 57)"

definition digit_val :: "char \<Rightarrow> nat" where
  "digit_val c = of_char c - 48"

definition parse_digits :: "string \<Rightarrow> nat option" where
  "parse_digits s =
     (if s \<noteq> [] \<and> list_all is_digit s
      then Some (foldl (\<lambda>acc c. 10 * acc + digit_val c) 0 s) else None)"

definition is_space :: "char \<Rightarrow> bool" where
  "is_space c = ((of_char c :: nat) \<in> {9, 10, 11, 12, 13, 32})"

definition trim :: "string \<Rightarrow> string" where
  "trim s = rev (dropWhile is_space (rev (dropWhile is_space s)))"

definition read_int :: "string \<Rightarrow> int jsnum" where
  "read_int s =
     (case trim s of
        [] \<Rightarrow> Num 0
      | c # cs \<Rightarrow>
          if c = CHR ''-'' then (case parse_digits cs of None \<Rightarrow> NaN | Some n \<Rightarrow> Num (- int n))
          else if c = CHR ''+'' then (case parse_digits cs of None \<Rightarrow> NaN | Some n \<Rightarrow> Num (int n))
          else (case parse_digits (c # cs) of None \<Rightarrow> NaN | Some n \<Rightarrow> Num (int n)))"

definition decimal :: "int runtime" where
  "decimal = \<lparr>String_js = print_int, Number_js = read_int\<rparr>"

definition seat_1_1 :: "int Seat" where
  "seat_1_1 = \<lparr>row = ''1'', number = 1, isAvailable = False\<rparr>"

definition seat_1_2 :: "int Seat" where
  "seat_1_2 = \<lparr>row = ''1'', number = 2, isAvailable = False\<rparr>"

definition seat_1_3 :: "int Seat" where
  "seat_1_3 = \<lparr>row = ''1'', number = 3, isAvailable = False\<rparr>"

definition seat_2_1 :: "int Seat" where
  "seat_2_1 = \<lparr>row = ''2'', number = 1, isAvailable = False\<rparr>"


definition screening_1 :: "int Screening" where
  "screening_1 =
     \<lparr>s_id = ''s1'', movieId = ''m1'', auditoriumId = ''a1'', startTime = 0, endTime = 7200000,
      price = ''12.50'', takenSeats = []\<rparr>"

definition fresh_db :: "int db" where
  "fresh_db = \<lparr>screeningTable = [screening_1], reservationTable = []\<rparr>"

text \<open>One seat taken once and held by the reservations of two users.\<close>

definition double_booked :: "int db" where
  "double_booked =
     \<lparr>screeningTable = [screening_1\<lparr>takenSeats := [seat_1_1]\<rparr>],
      reservationTable =
        [\<lparr>r_id = ''r1'', userId = ''u1'', screeningId = ''s1'', seats = [seat_1_1],
          totalPrice = ''12.50'', createdAt = 1\<rparr>,
         \<lparr>r_id = ''r2'', userId = ''u2'', screeningId = ''s1'', seats = [seat_1_1],
          totalPrice = ''12.50'', createdAt = 2\<rparr>]\<rparr>"

definition request_1 :: "int request" where
  "request_1 =
     \<lparr>q_sid = ''s1'', q_seats = [\<lparr>b_row = 1, b_number = 1\<rparr>], q_uid = ''u1'',
      q_uuid = ''r1'', q_now = 1\<rparr>"

definition request_2 :: "int request" where
  "request_2 =
     \<lparr>q_sid = ''s1'', q_seats = [\<lparr>b_row = 1, b_number = 1\<rparr>], q_uid = ''u2'',
      q_uuid = ''r2'', q_now = 2\<rparr>"

definition request_3 :: "int request" where
  "request_3 =
     \<lparr>q_sid = ''s1'', q_seats = [\<lparr>b_row = 1, b_number = 1\<rparr>], q_uid = ''u3'',
      q_uuid = ''r3'', q_now = 3\<rparr>"

text \<open>
  The scenario of the specification, with rows as numbers: seat (1, 1) is held by one
  user, seats (1, 2) and (1, 3) by another.
\<close>

definition reservation_0 :: "int Reservation" where
  "reservation_0 =
     \<lparr>r_id = ''r0'', userId = ''u0'', screeningId = ''s1'', seats = [seat_1_1],
      totalPrice = ''12.50'', createdAt = 1\<rparr>"

definition reservation_1 :: "int Reservation" where
  "reservation_1 =
     \<lparr>r_id = ''r1'', userId = ''u1'', screeningId = ''s1'', seats = [seat_1_2, seat_1_3],
      totalPrice = ''12.50'', createdAt = 2\<rparr>"

definition scenario_db :: "int db" where
  "scenario_db =
     \<lparr>screeningTable = [screening_1\<lparr>takenSeats := [seat_1_1, seat_1_2, seat_1_3]\<rparr>],
      reservationTable = [reservation_0, reservation_1]\<rparr>"

text \<open>Seats in two rows: (1, 1) and (1, 2) held by one user, (2, 1) by another.\<close>

definition booking_0 :: "int Reservation" where
  "booking_0 =
     \<lparr>r_id = ''r0'', userId = ''u0'', screeningId = ''s1'', seats = [seat_1_1, seat_1_2],
      totalPrice = ''12.50'', createdAt = 1\<rparr>"

definition booking_1 :: "int Reservation" where
  "booking_1 =
     \<lparr>r_id = ''r1'', userId = ''u1'', screeningId = ''s1'', seats = [seat_2_1],
      totalPrice = ''12.50'', createdAt = 2\<rparr>"

definition two_rows_db :: "int db" where
  "two_rows_db =
     \<lparr>screeningTable = [screening_1\<lparr>takenSeats := [seat_1_1, seat_2_1, seat_1_2]\<rparr>],
      reservationTable = [booking_0, booking_1]\<rparr>"


text \<open>The store after one Reserve of seat (1, 1) by a user, from the fresh store.\<close>

definition held_db :: "int db" where
  "held_db =
     \<lparr>screeningTable = [screening_1\<lparr>takenSeats := [seat_1_1]\<rparr>],
      reservationTable =
        [\<lparr>r_id = ''r1'', userId = ''u1'', screeningId = ''s1'', seats = [seat_1_1],
          totalPrice = ''12.50'', createdAt = 1\<rparr>]\<rparr>"

section \<open>Properties\<close>

subsection \<open>The runtime on the integers reads back what it prints\<close>

lemma digit_char_is_digit: "d < 10 \<Longrightarrow> is_digit (digit_char d)"
  by (simp add: is_digit_def digit_char_def)

lemma digit_val_digit_char: "d < 10 \<Longrightarrow> digit_val (digit_char d) = d"
  by (simp add: digit_val_def digit_char_def)

lemma digits_not_Nil: "digits n \<noteq> []"
  by (subst digits.simps) simp

lemma digits_all_digit: "list_all is_digit (digits n)"
  by (induction n rule: digits.induct) (subst digits.simps, simp add: digit_char_is_digit)

lemma foldl_digits: "foldl (\<lambda>acc c. 10 * acc + digit_val c) 0 (digits n) = n"
  by (induction n rule: digits.induct) (subst digits.simps, simp add: digit_val_digit_char)

lemma parse_digits_digits: "parse_digits (digits n) = Some n"
  by (simp add: parse_digits_def digits_not_Nil digits_all_digit foldl_digits)

lemma is_digit_not_space: "is_digit c \<Longrightarrow> \<not> is_space c"
  by (auto simp: is_digit_def is_space_def)

lemma is_digit_not_sign: "is_digit c \<Longrightarrow> c \<noteq> CHR ''-'' \<and> c \<noteq> CHR ''+''"
  by (auto simp: is_digit_def)

lemma trim_id:
  assumes "s \<noteq> []" "\<not> is_space (hd s)" "\<not> is_space (last s)"
  shows "trim s = s"
proof -
  have a: "dropWhile is_space s = s"
    using assms by (simp add: dropWhile_eq_self_iff)
  have b: "dropWhile is_space (rev s) = rev s"
    using assms by (simp add: dropWhile_eq_self_iff hd_rev)
  show ?thesis by (simp add: trim_def a b)
qed

lemma digits_hd_last: "is_digit (hd (digits n)) \<and> is_digit (last (digits n))"
  using digits_all_digit [of n] digits_not_Nil [of n]
  by (simp add: list_all_iff)

lemma trim_digits: "trim (digits n) = digits n"
  using digits_hd_last [of n] by (simp add: trim_id digits_not_Nil is_digit_not_space)

lemma trim_minus_digits: "trim (CHR ''-'' # digits n) = CHR ''-'' # digits n"
proof (rule trim_id)
  show "\<not> is_space (last (CHR ''-'' # digits n))"
    using digits_hd_last [of n] by (simp add: digits_not_Nil is_digit_not_space)
qed (simp_all add: is_space_def)

lemma read_int_digits: "read_int (digits n) = Num (int n)"
proof -
  obtain c cs where cs: "digits n = c # cs"
    using digits_not_Nil [of n] by (cases "digits n") auto
  with digits_hd_last [of n] have "is_digit c" by simp
  then have "c \<noteq> CHR ''-''" "c \<noteq> CHR ''+''"
    using is_digit_not_sign by blast+
  moreover have "parse_digits (c # cs) = Some n"
    using parse_digits_digits [of n] cs by simp
  moreover have "trim (c # cs) = c # cs"
    using trim_digits [of n] cs by simp
  ultimately show ?thesis
    by (simp add: read_int_def cs)
qed

lemma read_print_int: "read_int (print_int i) = Num i"
proof (cases "i < 0")
  case True
  then show ?thesis
    by (simp add: print_int_def read_int_def trim_minus_digits parse_digits_digits)
next
  case False
  then show ?thesis
    by (simp add: print_int_def read_int_digits)
qed



lemma round_trip_decimal: "round_trip decimal"
  by (simp add: round_trip_def decimal_def read_print_int)

subsection \<open>Stored seats and requested seats\<close>

lemma places_iff: "p \<in> places ts \<longleftrightarrow> (\<exists>t \<in> set ts. place t = p)"
  by (auto simp: places_def)

lemma places_Nil: "places [] = {}"
  by (simp add: places_def)

lemma places_append: "places (xs @ ys) = places xs \<union> places ys"
  by (simp add: places_def)

lemma places_filter: "places (filter (\<lambda>t. place t \<notin> S) ts) = places ts - S"
  by (auto simp: places_def)

lemma place_to_Seat: "place (to_Seat rt seat) = requested rt seat"
  by (simp add: place_def to_Seat_def requested_def)

lemma places_to_Seat: "places (map (to_Seat rt) bseats) = requested rt ` set bseats"
  by (simp add: places_def place_to_Seat image_image)

lemma printed_to_Seat: "round_trip rt \<Longrightarrow> printed_row rt (to_Seat rt seat)"
  by (simp add: round_trip_def printed_row_def to_Seat_def)

lemma printed_plain: "printed_row rt s \<Longrightarrow> plain_row rt s"
  by (simp add: printed_row_def plain_row_def split: jsnum.splits)

lemma printed_row_cong: "place s = place t \<Longrightarrow> printed_row rt s = printed_row rt t"
  by (simp add: place_def printed_row_def split: jsnum.splits)

text \<open>
  The comparison of the conflict check finds every stored seat that is the requested
  one, and among seats with plain rows no other.
\<close>

lemma taken_by_place:
  "round_trip rt \<Longrightarrow> place s = requested rt seat \<Longrightarrow> taken_by rt seat s"
  by (simp add: round_trip_def place_def requested_def taken_by_def)

lemma taken_by_plain:
  "plain_row rt s \<Longrightarrow> taken_by rt seat s \<Longrightarrow> place s = requested rt seat"
  by (cases "Number_js rt (row s)")
     (auto simp: plain_row_def place_def requested_def taken_by_def)

lemma first_taken_find:
  "first_taken rt ts bseats = find (\<lambda>seat. find (taken_by rt seat) ts \<noteq> None) bseats"
  by (induction bseats) simp_all

lemma first_taken_None:
  "first_taken rt ts bseats = None \<longleftrightarrow>
     (\<forall>seat \<in> set bseats. \<forall>t \<in> set ts. \<not> taken_by rt seat t)"
  by (auto simp: first_taken_find find_None_iff)

lemma free_not_taken:
  assumes "list_all (plain_row rt) ts" "\<forall>seat \<in> set bseats. requested rt seat \<notin> places ts"
  shows "first_taken rt ts bseats = None"
  unfolding first_taken_None
proof (intro ballI notI)
  fix seat t
  assume "seat \<in> set bseats" "t \<in> set ts" "taken_by rt seat t"
  then have "place t = requested rt seat"
    using assms(1) by (simp add: list_all_iff taken_by_plain)
  then show False
    using assms(2) \<open>seat \<in> set bseats\<close> \<open>t \<in> set ts\<close> by (auto simp: places_iff)
qed

lemma not_taken_free:
  assumes "round_trip rt" "first_taken rt ts bseats = None"
  shows "\<forall>seat \<in> set bseats. requested rt seat \<notin> places ts"
  using assms by (auto simp: first_taken_None places_iff dest: taken_by_place)

text \<open>
  The comparison of Cancel, between a stored seat with a plain row and a reservation's
  seat with a printed row, is equality of row and number.
\<close>

lemma same_seat_place:
  assumes "printed_row rt rSeat" "plain_row rt seat"
  shows "same_seat rt seat rSeat \<longleftrightarrow> place seat = place rSeat"
  using assms
  by (cases "Number_js rt (row rSeat)"; cases "Number_js rt (row seat)")
     (auto simp: printed_row_def plain_row_def same_seat_def place_def)

lemma find_same_seat:
  assumes "list_all (printed_row rt) rs" "plain_row rt seat"
  shows "find (same_seat rt seat) rs = None \<longleftrightarrow> place seat \<notin> places rs"
  using assms by (auto simp: find_None_iff places_iff list_all_iff same_seat_place)

lemma same_seat_to_Seat:
  "round_trip rt \<Longrightarrow> same_seat rt t (to_Seat rt seat) \<longleftrightarrow> taken_by rt seat t"
  by (cases "Number_js rt (row t)")
     (auto simp: round_trip_def same_seat_def taken_by_def to_Seat_def)

subsection \<open>The store\<close>

lemma select_update_takenSeats:
  "select_screening (update_takenSeats d sid ts) sid' =
     (if sid' = sid then map_option (\<lambda>s. s\<lparr>takenSeats := ts\<rparr>) (select_screening d sid)
      else select_screening d sid')"
proof -
  have "find (\<lambda>s. s_id s = sid')
          (map (\<lambda>s. if s_id s = sid then s\<lparr>takenSeats := ts\<rparr> else s) xs) =
        (if sid' = sid then map_option (\<lambda>s. s\<lparr>takenSeats := ts\<rparr>) (find (\<lambda>s. s_id s = sid) xs)
         else find (\<lambda>s. s_id s = sid') xs)" for xs :: "'a Screening list"
    by (induction xs) auto
  then show ?thesis
    by (simp add: select_screening_def update_takenSeats_def)
qed

lemma reservationTable_update [simp]:
  "reservationTable (update_takenSeats d sid ts) = reservationTable d"
  by (simp add: update_takenSeats_def)

lemma s_ids_update [simp]:
  "map s_id (screeningTable (update_takenSeats d sid ts)) = map s_id (screeningTable d)"
  by (simp add: update_takenSeats_def comp_def)

lemma select_Some_s_id: "select_screening d sid = Some sc \<Longrightarrow> s_id sc = sid \<and> sc \<in> set (screeningTable d)"
  by (auto simp: select_screening_def find_Some_iff)

lemma screeningTable_delete [simp]:
  "screeningTable (delete_reservation d rid) = screeningTable d"
  by (simp add: delete_reservation_def)

lemma select_delete [simp]:
  "select_screening (delete_reservation d rid) sid = select_screening d sid"
  by (simp add: select_screening_def)

lemma select_reservation_Some:
  "select_reservation d sid uid = Some r \<Longrightarrow>
     r \<in> set (reservationTable d) \<and> screeningId r = sid \<and> userId r = uid"
proof -
  assume "select_reservation d sid uid = Some r"
  then have "r \<in> set (reservations_of d sid uid)"
    by (auto simp: select_reservation_def split: list.splits)
  then show ?thesis by (simp add: reservations_of_def)
qed

subsection \<open>Cancelling without a reservation\<close>

text \<open>
  Claim C7. When the user holds no reservation for the screening, Cancel answers 404
  ``Reservation not found'' and the store it leaves is the store it found: no taken-seat
  list and no reservation row has changed.
\<close>

theorem cancel_not_found:
  assumes "reservations_of d sid uid = []"
  shows "cancel rt sid uid d = (Reply 404 (Error ''Reservation not found''), d)"
  using assms by (simp add: cancel_def select_reservation_def)

theorem cancel_not_found_witness:
  "reservations_of fresh_db ''s1'' ''u1'' = []
   \<and> cancel decimal ''s1'' ''u1'' fresh_db = (Reply 404 (Error ''Reservation not found''), fresh_db)"
proof -
  have h: "reservations_of fresh_db ''s1'' ''u1'' = []"
    by (simp add: reservations_of_def fresh_db_def)
  show ?thesis
    using h cancel_not_found [OF h] by simp
qed

subsection \<open>Reserve: its outcomes\<close>

lemma s_id_image_update [simp]:
  "s_id ` set (screeningTable (update_takenSeats d sid ts)) = s_id ` set (screeningTable d)"
  using s_ids_update [of d sid ts] by (metis set_map)

lemma select_ignores_reservations:
  "select_screening (d\<lparr>reservationTable := rs\<rparr>) sid = select_screening d sid"
  by (simp add: select_screening_def)

lemma reserve_ok:
  assumes sc: "select_screening d sid = Some screening"
      and free: "first_taken rt (takenSeats screening) bseats = None"
      and fresh: "uuid \<notin> set (map r_id (reservationTable d))"
  shows "reserve rt sid bseats uid uuid now d =
           (Reply 200 (MessageWithId ''Reservation successful'' uuid),
            (update_takenSeats d sid (takenSeats screening @ map (to_Seat rt) bseats))
              \<lparr>reservationTable := reservationTable d @
                 [\<lparr>r_id = uuid, userId = uid, screeningId = sid,
                   seats = map (to_Seat rt) bseats,
                   totalPrice = price screening, createdAt = now\<rparr>]\<rparr>)"
proof -
  have "sid \<in> set (map s_id (screeningTable d))"
    using select_Some_s_id [OF sc] by force
  then show ?thesis
    using sc free fresh
    by (simp add: reserve_def insert_reservation_def Let_def)
qed

lemma reserve_cases:
  assumes r: "reserve rt sid bseats uid uuid now d = (res, d')"
  shows
    "(select_screening d sid = None \<and> res = Reply 404 (Error ''Screening not found'') \<and> d' = d)
   \<or> (\<exists>screening seat. select_screening d sid = Some screening
         \<and> first_taken rt (takenSeats screening) bseats = Some seat
         \<and> res = Reply 400 (Error (taken_message rt seat)) \<and> d' = d)
   \<or> (\<exists>screening. select_screening d sid = Some screening
         \<and> first_taken rt (takenSeats screening) bseats = None
         \<and> uuid \<in> set (map r_id (reservationTable d)) \<and> res = Thrown
         \<and> d' = update_takenSeats d sid (takenSeats screening @ map (to_Seat rt) bseats))
   \<or> (\<exists>screening. select_screening d sid = Some screening
         \<and> first_taken rt (takenSeats screening) bseats = None
         \<and> uuid \<notin> set (map r_id (reservationTable d))
         \<and> res = Reply 200 (MessageWithId ''Reservation successful'' uuid)
         \<and> d' = (update_takenSeats d sid (takenSeats screening @ map (to_Seat rt) bseats))
              \<lparr>reservationTable := reservationTable d @
                 [\<lparr>r_id = uuid, userId = uid, screeningId = sid,
                   seats = map (to_Seat rt) bseats,
                   totalPrice = price screening, createdAt = now\<rparr>]\<rparr>)"
proof (cases "select_screening d sid")
  case None
  then show ?thesis using r by (auto simp: reserve_def)
next
  case (Some screening)
  note sc = this
  show ?thesis
  proof (cases "first_taken rt (takenSeats screening) bseats")
    case (Some seat)
    then show ?thesis
      using r sc by (auto simp: reserve_def)
  next
    case None
    show ?thesis
    proof (cases "uuid \<in> set (map r_id (reservationTable d))")
      case True
      then show ?thesis
        using r sc None by (auto simp: reserve_def insert_reservation_def Let_def)
    next
      case False
      then show ?thesis
        using r reserve_ok [OF sc None False, of uid now] sc None by auto
    qed
  qed
qed

subsection \<open>Reserve on a seat that is taken\<close>

text \<open>
  Claim C3. When the screening exists and some requested seat is in its taken-seat set,
  Reserve answers 400 and the store it leaves is the store it found. The message names,
  by the row and the number that \<open>String\<close> prints, a requested seat before which no
  requested seat is in the taken-seat set. That seat is itself in the taken-seat set, so
  that it is the first requested seat that is, unless a stored row is another spelling of
  a number (all rows are plain when they are letters or were written by Reserve).
\<close>

theorem reserve_seat_conflict:
  assumes "round_trip rt"
      and "select_screening d sid = Some screening"
      and "\<exists>seat \<in> set bseats. requested rt seat \<in> places (takenSeats screening)"
  shows "\<exists>i < length bseats.
           reserve rt sid bseats uid uuid now d =
             (Reply 400 (Error (''Seat row '' @ String_js rt (b_row (bseats ! i)) @ '' number ''
                 @ String_js rt (b_number (bseats ! i)) @ '' is already taken'')), d)
           \<and> (\<forall>j < i. requested rt (bseats ! j) \<notin> places (takenSeats screening))
           \<and> (list_all (plain_row rt) (takenSeats screening)
                \<longrightarrow> requested rt (bseats ! i) \<in> places (takenSeats screening))"
proof -
  let ?ts = "takenSeats screening"
  have "first_taken rt ?ts bseats \<noteq> None"
    using assms(1,3) not_taken_free [of rt ?ts bseats] by blast
  then obtain seat where seat: "first_taken rt ?ts bseats = Some seat"
    by blast
  then obtain i where i: "i < length bseats" "bseats ! i = seat"
      "find (taken_by rt seat) ?ts \<noteq> None"
      "\<forall>j < i. find (taken_by rt (bseats ! j)) ?ts = None"
    unfolding first_taken_find find_Some_iff by blast
  have before: "requested rt (bseats ! j) \<notin> places ?ts" if "j < i" for j
  proof
    assume "requested rt (bseats ! j) \<in> places ?ts"
    then obtain t where "t \<in> set ?ts" "place t = requested rt (bseats ! j)"
      by (auto simp: places_iff)
    then have "t \<in> set ?ts \<and> taken_by rt (bseats ! j) t"
      using assms(1) by (simp add: taken_by_place)
    then show False
      using i(4) that by (auto simp: find_None_iff)
  qed
  have here: "requested rt seat \<in> places ?ts" if "list_all (plain_row rt) ?ts"
  proof -
    from i(3) obtain t where "t \<in> set ?ts" "taken_by rt seat t"
      by (auto simp: find_None_iff)
    then show ?thesis
      using that by (auto simp: places_iff list_all_iff dest: taken_by_plain)
  qed
  have "reserve rt sid bseats uid uuid now d = (Reply 400 (Error (taken_message rt seat)), d)"
    using assms(2) seat by (simp add: reserve_def)
  with i(1,2) before here show ?thesis
    by (auto simp: taken_message_def)
qed

theorem reserve_seat_conflict_witness:
  "round_trip decimal
   \<and> select_screening two_rows_db ''s1'' =
       Some (screening_1\<lparr>takenSeats := [seat_1_1, seat_2_1, seat_1_2]\<rparr>)
   \<and> requested decimal \<lparr>b_row = 2, b_number = 1\<rparr> \<in> places [seat_1_1, seat_2_1, seat_1_2]
   \<and> reserve decimal ''s1''
         [\<lparr>b_row = 3, b_number = 3\<rparr>, \<lparr>b_row = 2, b_number = 1\<rparr>, \<lparr>b_row = 1, b_number = 1\<rparr>]
         ''u3'' ''r3'' 3 two_rows_db =
       (Reply 400 (Error ''Seat row 2 number 1 is already taken''), two_rows_db)"
proof -
  let ?bseats = "[\<lparr>b_row = 3, b_number = 3\<rparr>, \<lparr>b_row = 2, b_number = 1\<rparr>,
                  \<lparr>b_row = 1, b_number = (1::int)\<rparr>]"
  let ?sc = "screening_1\<lparr>takenSeats := [seat_1_1, seat_2_1, seat_1_2]\<rparr>"
  have sc: "select_screening two_rows_db ''s1'' = Some ?sc"
    by (simp add: select_screening_def two_rows_db_def screening_1_def)
  have ts: "takenSeats ?sc = [seat_1_1, seat_2_1, seat_1_2]"
    by simp
  have zero: "requested decimal (?bseats ! 0) \<notin> places [seat_1_1, seat_2_1, seat_1_2]"
    by code_simp
  have one: "requested decimal \<lparr>b_row = 2, b_number = 1\<rparr> \<in> places [seat_1_1, seat_2_1, seat_1_2]"
    by code_simp
  have plain: "list_all (plain_row decimal) [seat_1_1, seat_2_1, seat_1_2]"
    by code_simp
  have ex: "\<exists>seat \<in> set ?bseats. requested decimal seat \<in> places (takenSeats ?sc)"
    using one by simp
  obtain i where i: "i < length ?bseats"
      "reserve decimal ''s1'' ?bseats ''u3'' ''r3'' 3 two_rows_db =
         (Reply 400 (Error (''Seat row '' @ String_js decimal (b_row (?bseats ! i)) @ '' number ''
             @ String_js decimal (b_number (?bseats ! i)) @ '' is already taken'')), two_rows_db)"
      "\<forall>j < i. requested decimal (?bseats ! j) \<notin> places (takenSeats ?sc)"
      "list_all (plain_row decimal) (takenSeats ?sc)
         \<longrightarrow> requested decimal (?bseats ! i) \<in> places (takenSeats ?sc)"
    using reserve_seat_conflict [OF round_trip_decimal sc ex, of "''u3''" "''r3''" 3] by blast
  have "requested decimal (?bseats ! i) \<in> places [seat_1_1, seat_2_1, seat_1_2]"
    using i(4) plain unfolding ts by blast
  then have "i \<noteq> 0"
    using zero by (cases i) auto
  moreover have "\<not> 1 < i"
    using i(3) one unfolding ts by auto
  ultimately have "i = 1"
    by simp
  moreover have "String_js decimal 2 = ''2''" "String_js decimal 1 = ''1''"
    by code_simp+
  ultimately show ?thesis
    using round_trip_decimal sc one i(2) by simp
qed

subsection \<open>A successful Reserve\<close>

text \<open>
  Claim C4. When Reserve answers 200, the screening exists, the reply carries the
  identifier of the new reservation, the screening's \<^verbatim>\<open>takenSeats\<close> is the old list with
  the requested seats appended in order, each under the row that \<open>String\<close> prints and
  marked unavailable, so that the taken-seat set has grown by exactly the requested
  seats; the reservation table has one new row, last, that owns exactly those seats and
  whose total price is the price of the screening, whatever the number of seats; other
  screenings are as they were.
\<close>

theorem reserve_effect:
  assumes "reserve rt sid bseats uid uuid now d = (Reply 200 b, d')"
  shows "\<exists>screening. select_screening d sid = Some screening
           \<and> b = MessageWithId ''Reservation successful'' uuid
           \<and> select_screening d' sid =
               Some (screening\<lparr>takenSeats := takenSeats screening @ map (to_Seat rt) bseats\<rparr>)
           \<and> map (to_Seat rt) bseats =
               map (\<lambda>seat. \<lparr>row = String_js rt (b_row seat), number = b_number seat,
                             isAvailable = False\<rparr>) bseats
           \<and> places (takenSeats screening @ map (to_Seat rt) bseats) =
               places (takenSeats screening) \<union> requested rt ` set bseats
           \<and> reservationTable d' = reservationTable d @
               [\<lparr>r_id = uuid, userId = uid, screeningId = sid, seats = map (to_Seat rt) bseats,
                 totalPrice = price screening, createdAt = now\<rparr>]
           \<and> (\<forall>sid'. sid' \<noteq> sid \<longrightarrow> select_screening d' sid' = select_screening d sid')"
proof -
  from reserve_cases [OF assms] obtain screening where
    sc: "select_screening d sid = Some screening" and
    b: "b = MessageWithId ''Reservation successful'' uuid" and
    d': "d' = (update_takenSeats d sid (takenSeats screening @ map (to_Seat rt) bseats))
              \<lparr>reservationTable := reservationTable d @
                 [\<lparr>r_id = uuid, userId = uid, screeningId = sid,
                   seats = map (to_Seat rt) bseats,
                   totalPrice = price screening, createdAt = now\<rparr>]\<rparr>"
    by auto
  have sel: "select_screening d' x =
               select_screening
                 (update_takenSeats d sid (takenSeats screening @ map (to_Seat rt) bseats)) x"
    for x
    by (simp add: d' select_screening_def)
  have "map (to_Seat rt) bseats =
          map (\<lambda>seat. \<lparr>row = String_js rt (b_row seat), number = b_number seat,
                        isAvailable = False\<rparr>) bseats"
    by (simp add: to_Seat_def)
  moreover have "reservationTable d' = reservationTable d @
               [\<lparr>r_id = uuid, userId = uid, screeningId = sid, seats = map (to_Seat rt) bseats,
                 totalPrice = price screening, createdAt = now\<rparr>]"
    by (simp add: d')
  moreover have "places (takenSeats screening @ map (to_Seat rt) bseats) =
               places (takenSeats screening) \<union> requested rt ` set bseats"
    by (simp add: places_append places_to_Seat)
  ultimately show ?thesis
    using sc b by (simp add: sel select_update_takenSeats)
qed

theorem reserve_effect_witness:
  "reserve decimal ''s1'' [\<lparr>b_row = 1, b_number = 2\<rparr>, \<lparr>b_row = 2, b_number = 1\<rparr>]
       ''u1'' ''r1'' 5 fresh_db =
     (Reply 200 (MessageWithId ''Reservation successful'' ''r1''),
      \<lparr>screeningTable = [screening_1\<lparr>takenSeats := [seat_1_2, seat_2_1]\<rparr>],
       reservationTable =
         [\<lparr>r_id = ''r1'', userId = ''u1'', screeningId = ''s1'',
           seats = [seat_1_2, seat_2_1], totalPrice = ''12.50'', createdAt = 5\<rparr>]\<rparr>)
   \<and> (\<exists>screening. select_screening fresh_db ''s1'' = Some screening
         \<and> places (takenSeats screening @
              map (to_Seat decimal) [\<lparr>b_row = 1, b_number = 2\<rparr>, \<lparr>b_row = 2, b_number = 1\<rparr>]) =
             places (takenSeats screening) \<union> {(''1'', 2), (''2'', 1)})"
proof -
  have h: "reserve decimal ''s1'' [\<lparr>b_row = 1, b_number = 2\<rparr>, \<lparr>b_row = 2, b_number = 1\<rparr>]
       ''u1'' ''r1'' 5 fresh_db =
     (Reply 200 (MessageWithId ''Reservation successful'' ''r1''),
      \<lparr>screeningTable = [screening_1\<lparr>takenSeats := [seat_1_2, seat_2_1]\<rparr>],
       reservationTable =
         [\<lparr>r_id = ''r1'', userId = ''u1'', screeningId = ''s1'',
           seats = [seat_1_2, seat_2_1], totalPrice = ''12.50'', createdAt = 5\<rparr>]\<rparr>)"
    by code_simp
  have r: "requested decimal \<lparr>b_row = 1, b_number = 2\<rparr> = (''1'', 2)"
      "requested decimal \<lparr>b_row = 2, b_number = 1\<rparr> = (''2'', 1)"
    by code_simp+
  from reserve_effect [OF h] obtain screening where
    "select_screening fresh_db ''s1'' = Some screening"
    "places (takenSeats screening @
        map (to_Seat decimal) [\<lparr>b_row = 1, b_number = 2\<rparr>, \<lparr>b_row = 2, b_number = 1\<rparr>]) =
     places (takenSeats screening)
       \<union> requested decimal ` set [\<lparr>b_row = 1, b_number = 2\<rparr>, \<lparr>b_row = 2, b_number = 1\<rparr>]"
    by blast
  then show ?thesis
    using h by (auto simp: r)
qed

subsection \<open>Reserve with no seats, and with one seat twice\<close>

text \<open>
  Claim C9. On an existing screening, Reserve with an empty seat list (and an identifier
  that is not in use) is not rejected: it answers 200 with the identifier, leaves every
  screening as it was, and adds a reservation that holds no seat and is priced at the
  full price of the screening.
\<close>

theorem reserve_no_seats:
  assumes "select_screening d sid = Some screening"
      and "uuid \<notin> set (map r_id (reservationTable d))"
  shows "\<exists>d'. reserve rt sid [] uid uuid now d =
                 (Reply 200 (MessageWithId ''Reservation successful'' uuid), d')
           \<and> (\<forall>sid'. select_screening d' sid' = select_screening d sid')
           \<and> reservationTable d' = reservationTable d @
               [\<lparr>r_id = uuid, userId = uid, screeningId = sid, seats = [],
                 totalPrice = price screening, createdAt = now\<rparr>]"
proof -
  have free: "first_taken rt (takenSeats screening) [] = None"
    by simp
  have sel: "select_screening
               ((update_takenSeats d sid (takenSeats screening))\<lparr>reservationTable := rs\<rparr>) x =
             select_screening d x" for rs x
    using assms(1) by (simp add: select_ignores_reservations select_update_takenSeats)
  show ?thesis
    using reserve_ok [OF assms(1) free assms(2), of uid now] by (simp add: sel)
qed

theorem reserve_no_seats_witness:
  "select_screening fresh_db ''s1'' = Some screening_1
   \<and> ''r1'' \<notin> set (map r_id (reservationTable fresh_db))
   \<and> (\<exists>d'. reserve decimal ''s1'' [] ''u1'' ''r1'' 5 fresh_db =
              (Reply 200 (MessageWithId ''Reservation successful'' ''r1''), d')
         \<and> reservationTable d' =
             [\<lparr>r_id = ''r1'', userId = ''u1'', screeningId = ''s1'', seats = [],
               totalPrice = ''12.50'', createdAt = 5\<rparr>])"
proof -
  have sc: "select_screening fresh_db ''s1'' = Some screening_1"
    by (simp add: select_screening_def fresh_db_def screening_1_def)
  have fresh: "''r1'' \<notin> set (map r_id (reservationTable fresh_db))"
    by (simp add: fresh_db_def)
  have "price screening_1 = ''12.50''" "reservationTable fresh_db = []"
    by (simp_all add: screening_1_def fresh_db_def)
  then show ?thesis
    using sc fresh reserve_no_seats [OF sc fresh, of decimal "''u1''" 5] by auto
qed

text \<open>
  Claim C10. Requested seats are checked against the taken-seat set only, never against
  each other: on an existing screening where the seat is free (and no stored row is
  another spelling of a number), Reserve with that seat listed twice (and an identifier
  that is not in use) answers 200, appends the seat twice to \<^verbatim>\<open>takenSeats\<close> and stores it
  twice in the seats of the new reservation.
\<close>

theorem reserve_same_seat_twice:
  assumes "select_screening d sid = Some screening"
      and "list_all (plain_row rt) (takenSeats screening)"
      and "requested rt seat \<notin> places (takenSeats screening)"
      and "uuid \<notin> set (map r_id (reservationTable d))"
  shows "\<exists>d'. reserve rt sid [seat, seat] uid uuid now d =
                 (Reply 200 (MessageWithId ''Reservation successful'' uuid), d')
           \<and> select_screening d' sid =
               Some (screening\<lparr>takenSeats :=
                       takenSeats screening @ [to_Seat rt seat, to_Seat rt seat]\<rparr>)
           \<and> reservationTable d' = reservationTable d @
               [\<lparr>r_id = uuid, userId = uid, screeningId = sid,
                 seats = [to_Seat rt seat, to_Seat rt seat],
                 totalPrice = price screening, createdAt = now\<rparr>]
           \<and> place (to_Seat rt seat) = requested rt seat"
proof -
  have free: "first_taken rt (takenSeats screening) [seat, seat] = None"
    using assms(2,3) by (intro free_not_taken) simp_all
  have sel: "select_screening ((update_takenSeats d sid ts)\<lparr>reservationTable := rs\<rparr>) sid =
             Some (screening\<lparr>takenSeats := ts\<rparr>)" for rs ts
    using assms(1) by (simp add: select_ignores_reservations select_update_takenSeats)
  show ?thesis
    using reserve_ok [OF assms(1) free assms(4), of uid now]
    by (simp add: sel place_to_Seat)
qed

theorem reserve_same_seat_twice_witness:
  "select_screening scenario_db ''s1'' =
     Some (screening_1\<lparr>takenSeats := [seat_1_1, seat_1_2, seat_1_3]\<rparr>)
   \<and> list_all (plain_row decimal) [seat_1_1, seat_1_2, seat_1_3]
   \<and> requested decimal \<lparr>b_row = 2, b_number = 1\<rparr> \<notin> places [seat_1_1, seat_1_2, seat_1_3]
   \<and> ''r2'' \<notin> set (map r_id (reservationTable scenario_db))
   \<and> (\<exists>d'. reserve decimal ''s1'' [\<lparr>b_row = 2, b_number = 1\<rparr>, \<lparr>b_row = 2, b_number = 1\<rparr>]
                ''u2'' ''r2'' 5 scenario_db =
              (Reply 200 (MessageWithId ''Reservation successful'' ''r2''), d')
         \<and> select_screening d' ''s1'' =
             Some (screening_1\<lparr>takenSeats :=
                     [seat_1_1, seat_1_2, seat_1_3, seat_2_1, seat_2_1]\<rparr>)
         \<and> reservationTable d' =
             [reservation_0, reservation_1,
              \<lparr>r_id = ''r2'', userId = ''u2'', screeningId = ''s1'',
                seats = [seat_2_1, seat_2_1], totalPrice = ''12.50'', createdAt = 5\<rparr>])"
proof -
  let ?sc = "screening_1\<lparr>takenSeats := [seat_1_1, seat_1_2, seat_1_3]\<rparr>"
  have sc: "select_screening scenario_db ''s1'' = Some ?sc"
    by (simp add: select_screening_def scenario_db_def screening_1_def)
  have plain: "list_all (plain_row decimal) [seat_1_1, seat_1_2, seat_1_3]"
    by code_simp
  have free: "requested decimal \<lparr>b_row = 2, b_number = 1\<rparr> \<notin> places [seat_1_1, seat_1_2, seat_1_3]"
    by code_simp
  have fresh: "''r2'' \<notin> set (map r_id (reservationTable scenario_db))"
    by code_simp
  have plain': "list_all (plain_row decimal) (takenSeats ?sc)"
    using plain by simp
  have free': "requested decimal \<lparr>b_row = 2, b_number = 1\<rparr> \<notin> places (takenSeats ?sc)"
    using free by simp
  have "to_Seat decimal \<lparr>b_row = 2, b_number = 1\<rparr> = seat_2_1"
    by code_simp
  moreover have "price ?sc = ''12.50''"
      "reservationTable scenario_db = [reservation_0, reservation_1]"
    by (simp_all add: screening_1_def scenario_db_def)
  ultimately show ?thesis
    using sc plain free fresh
      reserve_same_seat_twice [OF sc plain' free' fresh, of "''u2''" 5]
    by auto
qed

subsection \<open>Cancel: its outcomes\<close>

lemma cancel_ok:
  assumes "select_reservation d sid uid = Some reservation"
  shows "cancel rt sid uid d =
           (Reply 200 (Message ''Reservation cancelled successfully''),
            (case select_screening d sid of
               None \<Rightarrow> delete_reservation d (r_id reservation)
             | Some screening \<Rightarrow>
                 update_takenSeats (delete_reservation d (r_id reservation)) sid
                   (filter (\<lambda>seat. find (same_seat rt seat) (seats reservation) = None)
                      (takenSeats screening))))"
  using assms by (simp add: cancel_def Let_def split: option.splits)

lemma filter_other_ids:
  "distinct (map f xs) \<Longrightarrow> x \<in> set xs \<Longrightarrow> filter (\<lambda>y. f y \<noteq> f x) xs = remove1 x xs"
proof (induction xs)
  case Nil
  then show ?case by simp
next
  case (Cons a xs)
  show ?case
  proof (cases "a = x")
    case True
    have "\<forall>y \<in> set xs. f y \<noteq> f x"
      using Cons.prems(1) True by (metis distinct.simps(2) image_eqI list.simps(9) set_map)
    then have "filter (\<lambda>y. f y \<noteq> f x) xs = xs"
      by (simp add: filter_id_conv)
    then show ?thesis using True by simp
  next
    case False
    then have "f a \<noteq> f x"
      using Cons.prems by auto
    then show ?thesis
      using Cons False by auto
  qed
qed

text \<open>
  What Cancel keeps of a taken-seat list, when the rows of the reservation's seats are
  printed and the rows of the taken seats are plain.
\<close>

lemma release_filter:
  assumes "list_all (printed_row rt) rs" "list_all (plain_row rt) ts"
  shows "filter (\<lambda>seat. find (same_seat rt seat) rs = None) ts =
         filter (\<lambda>seat. place seat \<notin> places rs) ts"
  using assms by (intro filter_cong) (simp_all add: list_all_iff find_same_seat)

subsection \<open>A successful Cancel\<close>




subsection \<open>Reserve, then Cancel\<close>

lemma release_own_seats:
  assumes "round_trip rt" "first_taken rt ts bseats = None"
  shows "filter (\<lambda>seat. find (same_seat rt seat) (map (to_Seat rt) bseats) = None)
           (ts @ map (to_Seat rt) bseats) = ts"
proof -
  have "find (same_seat rt t) (map (to_Seat rt) bseats) = None" if "t \<in> set ts" for t
    using that assms by (auto simp: find_None_iff same_seat_to_Seat first_taken_None)
  then have a: "filter (\<lambda>seat. find (same_seat rt seat) (map (to_Seat rt) bseats) = None) ts = ts"
    by (simp add: filter_id_conv)
  have "find (same_seat rt (to_Seat rt seat)) (map (to_Seat rt) bseats) \<noteq> None"
    if "seat \<in> set bseats" for seat
  proof -
    have "same_seat rt (to_Seat rt seat) (to_Seat rt seat)"
      using assms(1) by (simp add: same_seat_to_Seat taken_by_place place_to_Seat)
    then show ?thesis
      using that by (auto simp: find_None_iff)
  qed
  then have b: "filter (\<lambda>seat. find (same_seat rt seat) (map (to_Seat rt) bseats) = None)
                  (map (to_Seat rt) bseats) = []"
    by (auto simp: filter_empty_conv simp del: not_None_eq)
  show ?thesis
    by (simp add: a b)
qed

text \<open>
  Claim C6, as the code has it. Cancel takes the first reservation of the user for the
  screening, which is the one just made when the user held none before. When Reserve
  answers 200 for a user who held no reservation for the screening, the Cancel that
  follows answers 200 and the screening reads as before the Reserve, its \<^verbatim>\<open>takenSeats\<close>
  being the very list it was; the reservation table is the one before the Reserve as
  well. When the user held one already, Cancel releases the seats of that one instead.
\<close>

theorem reserve_cancel_round_trip:
  assumes "round_trip rt"
      and "reserve rt sid bseats uid uuid now d = (Reply 200 b, d1)"
      and "reservations_of d sid uid = []"
  shows "\<exists>d2. cancel rt sid uid d1 =
                 (Reply 200 (Message ''Reservation cancelled successfully''), d2)
           \<and> select_screening d2 sid = select_screening d sid
           \<and> reservationTable d2 = reservationTable d"
proof -
  from reserve_cases [OF assms(2)] obtain screening where
    sc: "select_screening d sid = Some screening" and
    free: "first_taken rt (takenSeats screening) bseats = None" and
    fresh: "uuid \<notin> set (map r_id (reservationTable d))" and
    d1: "d1 = (update_takenSeats d sid (takenSeats screening @ map (to_Seat rt) bseats))
              \<lparr>reservationTable := reservationTable d @
                 [\<lparr>r_id = uuid, userId = uid, screeningId = sid,
                   seats = map (to_Seat rt) bseats,
                   totalPrice = price screening, createdAt = now\<rparr>]\<rparr>"
    by auto
  let ?new = "\<lparr>r_id = uuid, userId = uid, screeningId = sid, seats = map (to_Seat rt) bseats,
               totalPrice = price screening, createdAt = now\<rparr>"
  have r: "select_reservation d1 sid uid = Some ?new"
    using assms(3) by (simp add: d1 select_reservation_def reservations_of_def)
  have del: "reservationTable (delete_reservation d1 uuid) = reservationTable d"
    using fresh by (auto simp: delete_reservation_def d1 filter_id_conv)
  have sel1: "select_screening d1 sid =
                Some (screening\<lparr>takenSeats := takenSeats screening @ map (to_Seat rt) bseats\<rparr>)"
    using sc by (simp add: d1 select_ignores_reservations select_update_takenSeats)
  let ?d2 = "update_takenSeats (delete_reservation d1 uuid) sid (takenSeats screening)"
  have "cancel rt sid uid d1 = (Reply 200 (Message ''Reservation cancelled successfully''), ?d2)"
    using cancel_ok [OF r] sel1 release_own_seats [OF assms(1) free] by simp
  moreover have "select_screening ?d2 sid = select_screening d sid"
    using sel1 sc by (simp add: select_update_takenSeats)
  moreover have "reservationTable ?d2 = reservationTable d"
    using del by simp
  ultimately show ?thesis
    by blast
qed

theorem reserve_cancel_round_trip_witness:
  "round_trip decimal
   \<and> reserve decimal ''s1'' [\<lparr>b_row = 2, b_number = 1\<rparr>] ''u1'' ''r1'' 2
       \<lparr>screeningTable = [screening_1\<lparr>takenSeats := [seat_1_1, seat_1_2]\<rparr>],
        reservationTable = [booking_0]\<rparr> =
     (Reply 200 (MessageWithId ''Reservation successful'' ''r1''),
      \<lparr>screeningTable = [screening_1\<lparr>takenSeats := [seat_1_1, seat_1_2, seat_2_1]\<rparr>],
       reservationTable = [booking_0, booking_1]\<rparr>)
   \<and> reservations_of
         \<lparr>screeningTable = [screening_1\<lparr>takenSeats := [seat_1_1, seat_1_2]\<rparr>],
          reservationTable = [booking_0]\<rparr> ''s1'' ''u1'' = []
   \<and> (\<exists>d2. cancel decimal ''s1'' ''u1''
                \<lparr>screeningTable = [screening_1\<lparr>takenSeats := [seat_1_1, seat_1_2, seat_2_1]\<rparr>],
                 reservationTable = [booking_0, booking_1]\<rparr> =
              (Reply 200 (Message ''Reservation cancelled successfully''), d2)
         \<and> select_screening d2 ''s1'' =
             Some (screening_1\<lparr>takenSeats := [seat_1_1, seat_1_2]\<rparr>)
         \<and> reservationTable d2 = [booking_0])"
proof -
  let ?d = "\<lparr>screeningTable = [screening_1\<lparr>takenSeats := [seat_1_1, seat_1_2]\<rparr>],
             reservationTable = [booking_0]\<rparr>"
  have res: "reserve decimal ''s1'' [\<lparr>b_row = 2, b_number = 1\<rparr>] ''u1'' ''r1'' 2 ?d =
     (Reply 200 (MessageWithId ''Reservation successful'' ''r1''),
      \<lparr>screeningTable = [screening_1\<lparr>takenSeats := [seat_1_1, seat_1_2, seat_2_1]\<rparr>],
       reservationTable = [booking_0, booking_1]\<rparr>)"
    by code_simp
  have none: "reservations_of ?d ''s1'' ''u1'' = []"
    by code_simp
  have sc: "select_screening ?d ''s1'' = Some (screening_1\<lparr>takenSeats := [seat_1_1, seat_1_2]\<rparr>)"
    by (simp add: select_screening_def screening_1_def)
  show ?thesis
    using round_trip_decimal res none
      reserve_cancel_round_trip [OF round_trip_decimal res none]
    by (simp add: sc)
qed

theorem round_trip_counterexample:
  "snd (run decimal fresh_db [Reserve ''s1'' [\<lparr>b_row = 1, b_number = 1\<rparr>] ''u1'' ''r1'' 1]) = held_db
   \<and> run decimal held_db
     [Reserve ''s1'' [\<lparr>b_row = 1, b_number = 2\<rparr>] ''u1'' ''r2'' 2, Cancel ''s1'' ''u1''] =
     ([Reply 200 (MessageWithId ''Reservation successful'' ''r2''),
       Reply 200 (Message ''Reservation cancelled successfully'')],
      \<lparr>screeningTable = [screening_1\<lparr>takenSeats := [seat_1_2]\<rparr>],
       reservationTable =
         [\<lparr>r_id = ''r2'', userId = ''u1'', screeningId = ''s1'', seats = [seat_1_2],
           totalPrice = ''12.50'', createdAt = 2\<rparr>]\<rparr>)
   \<and> select_screening held_db ''s1'' = Some (screening_1\<lparr>takenSeats := [seat_1_1]\<rparr>)
   \<and> [seat_1_2] \<noteq> [seat_1_1]"
  by code_simp

subsection \<open>Reservations of one user for one screening\<close>

text \<open>
  Claim C8, as the code has it. Neither the table nor Reserve bounds the reservations of
  a user for a screening: when Reserve answers 200, the rows of that user and screening
  are those there were, in their order, followed by the new one, however many there
  were. A user who reserves twice holds two, and the lookup of Cancel keeps returning the
  earlier one.
\<close>

theorem reserve_adds_reservation:
  assumes "reserve rt sid bseats uid uuid now d = (Reply 200 b, d')"
  shows "\<exists>screening. select_screening d sid = Some screening
           \<and> reservations_of d' sid uid =
               reservations_of d sid uid @
                 [\<lparr>r_id = uuid, userId = uid, screeningId = sid,
                   seats = map (to_Seat rt) bseats,
                   totalPrice = price screening, createdAt = now\<rparr>]
           \<and> length (reservations_of d' sid uid) = length (reservations_of d sid uid) + 1"
proof -
  from reserve_cases [OF assms] obtain screening where
    "select_screening d sid = Some screening"
    "d' = (update_takenSeats d sid (takenSeats screening @ map (to_Seat rt) bseats))
              \<lparr>reservationTable := reservationTable d @
                 [\<lparr>r_id = uuid, userId = uid, screeningId = sid,
                   seats = map (to_Seat rt) bseats,
                   totalPrice = price screening, createdAt = now\<rparr>]\<rparr>"
    by auto
  then show ?thesis
    by (simp add: reservations_of_def)
qed

theorem reserve_adds_reservation_witness:
  "reserve decimal ''s1'' [\<lparr>b_row = 1, b_number = 4\<rparr>] ''u1'' ''r2'' 3 scenario_db =
     (Reply 200 (MessageWithId ''Reservation successful'' ''r2''),
      \<lparr>screeningTable =
         [screening_1\<lparr>takenSeats :=
            [seat_1_1, seat_1_2, seat_1_3, \<lparr>row = ''1'', number = 4, isAvailable = False\<rparr>]\<rparr>],
       reservationTable =
         [reservation_0, reservation_1,
          \<lparr>r_id = ''r2'', userId = ''u1'', screeningId = ''s1'',
            seats = [\<lparr>row = ''1'', number = 4, isAvailable = False\<rparr>],
            totalPrice = ''12.50'', createdAt = 3\<rparr>]\<rparr>)
   \<and> length (reservations_of scenario_db ''s1'' ''u1'') = 1
   \<and> length (reservations_of
        \<lparr>screeningTable =
           [screening_1\<lparr>takenSeats :=
              [seat_1_1, seat_1_2, seat_1_3, \<lparr>row = ''1'', number = 4, isAvailable = False\<rparr>]\<rparr>],
         reservationTable =
           [reservation_0, reservation_1,
            \<lparr>r_id = ''r2'', userId = ''u1'', screeningId = ''s1'',
              seats = [\<lparr>row = ''1'', number = 4, isAvailable = False\<rparr>],
              totalPrice = ''12.50'', createdAt = 3\<rparr>]\<rparr> ''s1'' ''u1'') = 2"
proof -
  have h: "reserve decimal ''s1'' [\<lparr>b_row = 1, b_number = 4\<rparr>] ''u1'' ''r2'' 3 scenario_db =
     (Reply 200 (MessageWithId ''Reservation successful'' ''r2''),
      \<lparr>screeningTable =
         [screening_1\<lparr>takenSeats :=
            [seat_1_1, seat_1_2, seat_1_3, \<lparr>row = ''1'', number = 4, isAvailable = False\<rparr>]\<rparr>],
       reservationTable =
         [reservation_0, reservation_1,
          \<lparr>r_id = ''r2'', userId = ''u1'', screeningId = ''s1'',
            seats = [\<lparr>row = ''1'', number = 4, isAvailable = False\<rparr>],
            totalPrice = ''12.50'', createdAt = 3\<rparr>]\<rparr>)"
    by code_simp
  have one: "length (reservations_of scenario_db ''s1'' ''u1'') = 1"
    by code_simp
  from reserve_adds_reservation [OF h] have
    "length (reservations_of
        \<lparr>screeningTable =
           [screening_1\<lparr>takenSeats :=
              [seat_1_1, seat_1_2, seat_1_3, \<lparr>row = ''1'', number = 4, isAvailable = False\<rparr>]\<rparr>],
         reservationTable =
           [reservation_0, reservation_1,
            \<lparr>r_id = ''r2'', userId = ''u1'', screeningId = ''s1'',
              seats = [\<lparr>row = ''1'', number = 4, isAvailable = False\<rparr>],
              totalPrice = ''12.50'', createdAt = 3\<rparr>]\<rparr> ''s1'' ''u1'')
     = length (reservations_of scenario_db ''s1'' ''u1'') + 1"
    by blast
  with one have two: "length (reservations_of
        \<lparr>screeningTable =
           [screening_1\<lparr>takenSeats :=
              [seat_1_1, seat_1_2, seat_1_3, \<lparr>row = ''1'', number = 4, isAvailable = False\<rparr>]\<rparr>],
         reservationTable =
           [reservation_0, reservation_1,
            \<lparr>r_id = ''r2'', userId = ''u1'', screeningId = ''s1'',
              seats = [\<lparr>row = ''1'', number = 4, isAvailable = False\<rparr>],
              totalPrice = ''12.50'', createdAt = 3\<rparr>]\<rparr> ''s1'' ''u1'') = 2"
    by simp
  from h one two show ?thesis
    by (intro conjI)
qed

theorem second_reservation_counterexample:
  "fst (run decimal fresh_db
          [Reserve ''s1'' [\<lparr>b_row = 1, b_number = 1\<rparr>] ''u1'' ''r1'' 1,
           Reserve ''s1'' [\<lparr>b_row = 1, b_number = 2\<rparr>] ''u1'' ''r2'' 2]) =
     [Reply 200 (MessageWithId ''Reservation successful'' ''r1''),
      Reply 200 (MessageWithId ''Reservation successful'' ''r2'')]
   \<and> length (reservations_of
        (snd (run decimal fresh_db
          [Reserve ''s1'' [\<lparr>b_row = 1, b_number = 1\<rparr>] ''u1'' ''r1'' 1,
           Reserve ''s1'' [\<lparr>b_row = 1, b_number = 2\<rparr>] ''u1'' ''r2'' 2])) ''s1'' ''u1'') = 2"
  by code_simp

subsection \<open>No drift\<close>

lemma disjoint_bookings_filter:
  "disjoint_bookings rs \<Longrightarrow> disjoint_bookings (filter P rs)"
  by (induction rs) auto

lemma disjoint_bookings_snoc:
  "disjoint_bookings (rs @ [r]) \<longleftrightarrow>
     disjoint_bookings rs \<and> (\<forall>r' \<in> set rs. places (seats r') \<inter> places (seats r) = {})"
  by (induction rs) auto

lemma disjoint_bookings_pair:
  "disjoint_bookings rs \<Longrightarrow> x \<in> set rs \<Longrightarrow> y \<in> set rs \<Longrightarrow> r_id x \<noteq> r_id y \<Longrightarrow>
     places (seats x) \<inter> places (seats y) = {}"
  by (induction rs) auto

lemma bookings_update [simp]:
  "bookings (update_takenSeats d sid ts) sid' = bookings d sid'"
  by (simp add: bookings_def)

lemma bookings_delete:
  "bookings (delete_reservation d rid) sid = filter (\<lambda>r. r_id r \<noteq> rid) (bookings d sid)"
  by (simp add: bookings_def delete_reservation_def conj_commute)

lemma bookings_delete_other:
  assumes "unique_ids d" "r \<in> set (reservationTable d)" "screeningId r \<noteq> sid"
  shows "bookings (delete_reservation d (r_id r)) sid = bookings d sid"
proof -
  have "filter (\<lambda>y. r_id y \<noteq> r_id r) (reservationTable d) = remove1 r (reservationTable d)"
    using assms(1,2) by (simp add: filter_other_ids unique_ids_def)
  then have "bookings (delete_reservation d (r_id r)) sid =
             filter (\<lambda>r. screeningId r = sid) (remove1 r (reservationTable d))"
    by (simp add: bookings_def delete_reservation_def)
  also have "\<dots> = remove1 r (bookings d sid)"
    using assms(1) by (simp add: bookings_def filter_remove1)
  also have "\<dots> = bookings d sid"
    using assms(3) by (simp add: bookings_def remove1_idem)
  finally show ?thesis .
qed

lemma unique_ids_delete: "unique_ids d \<Longrightarrow> unique_ids (delete_reservation d rid)"
  by (simp add: unique_ids_def delete_reservation_def distinct_map_filter)

lemma unique_ids_update [simp]: "unique_ids (update_takenSeats d sid ts) = unique_ids d"
  by (simp add: unique_ids_def)

lemma reserved_release:
  assumes "disjoint_bookings rs" "distinct (map r_id rs)" "r \<in> set rs"
  shows "(\<Union>x \<in> set (filter (\<lambda>x. r_id x \<noteq> r_id r) rs). places (seats x)) =
         (\<Union>x \<in> set rs. places (seats x)) - places (seats r)"
proof -
  have same: "x = r" if "x \<in> set rs" "r_id x = r_id r" for x
    using that assms(2,3) by (meson distinct_map inj_onD)
  have disj: "places (seats x) \<inter> places (seats r) = {}"
    if "x \<in> set rs" "r_id x \<noteq> r_id r" for x
    using disjoint_bookings_pair [OF assms(1) that(1) assms(3) that(2)] .
  show ?thesis
  proof (rule set_eqI)
    fix p
    show "p \<in> (\<Union>x \<in> set (filter (\<lambda>x. r_id x \<noteq> r_id r) rs). places (seats x)) \<longleftrightarrow>
          p \<in> (\<Union>x \<in> set rs. places (seats x)) - places (seats r)"
      using same disj by auto
  qed
qed

text \<open>The rows of the taken seats of a screening without drift are those of its bookings.\<close>

lemma taken_rows_printed:
  assumes "printed_bookings rt d sid" "places ts = reserved d sid"
  shows "list_all (printed_row rt) ts"
  unfolding list_all_iff
proof
  fix t
  assume "t \<in> set ts"
  then have "place t \<in> places ts"
    by (auto simp: places_iff)
  then have "place t \<in> reserved d sid"
    using assms(2) by simp
  then obtain r s where "r \<in> set (bookings d sid)" "s \<in> set (seats r)" "place s = place t"
    by (auto simp: reserved_def places_iff)
  moreover from this have "printed_row rt s"
    using assms(1) by (auto simp: printed_bookings_def list_all_iff)
  ultimately show "printed_row rt t"
    using printed_row_cong [of s t rt] by simp
qed

text \<open>
  What a call that the store does not reject preserves, for a screening: the primary key
  of the reservations, printed rows in its bookings, no drift, and one owner for every
  seat.
\<close>

lemma reserve_preserves:
  assumes rt: "round_trip rt"
      and r: "reserve rt sid0 bseats uid uuid now d = (res, d')" and nt: "res \<noteq> Thrown"
      and u: "unique_ids d" and pb: "printed_bookings rt d sid"
      and nd: "no_drift d sid" and so: "single_owner d sid"
  shows "unique_ids d' \<and> printed_bookings rt d' sid \<and> no_drift d' sid \<and> single_owner d' sid"
proof -
  consider (same) "d' = d"
    | (ok) screening where "select_screening d sid0 = Some screening"
        "first_taken rt (takenSeats screening) bseats = None"
        "uuid \<notin> set (map r_id (reservationTable d))"
        "d' = (update_takenSeats d sid0 (takenSeats screening @ map (to_Seat rt) bseats))
              \<lparr>reservationTable := reservationTable d @
                 [\<lparr>r_id = uuid, userId = uid, screeningId = sid0,
                   seats = map (to_Seat rt) bseats,
                   totalPrice = price screening, createdAt = now\<rparr>]\<rparr>"
    using reserve_cases [OF r] nt by auto
  then show ?thesis
  proof cases
    case same
    then show ?thesis using u pb nd so by simp
  next
    case (ok screening)
    let ?new = "\<lparr>r_id = uuid, userId = uid, screeningId = sid0, seats = map (to_Seat rt) bseats,
                 totalPrice = price screening, createdAt = now\<rparr>"
    have tab: "reservationTable d' = reservationTable d @ [?new]"
      by (simp add: ok(4))
    have sel: "select_screening d' x =
                 (if x = sid0
                  then Some (screening\<lparr>takenSeats :=
                               takenSeats screening @ map (to_Seat rt) bseats\<rparr>)
                  else select_screening d x)" for x
      using ok(1) by (simp add: ok(4) select_ignores_reservations select_update_takenSeats)
    have uq: "unique_ids d'"
      using u ok(3) by (simp add: unique_ids_def tab)
    show ?thesis
    proof (cases "sid = sid0")
      case False
      then have "bookings d' sid = bookings d sid"
        by (simp add: bookings_def tab)
      moreover from this have "reserved d' sid = reserved d sid"
        by (simp add: reserved_def)
      ultimately show ?thesis
        using uq pb nd so False
        by (simp add: no_drift_def single_owner_def printed_bookings_def sel
                 split: option.splits)
    next
      case True
      have bk: "bookings d' sid = bookings d sid @ [?new]"
        using True by (simp add: bookings_def tab)
      have old: "places (takenSeats screening) = reserved d sid"
        using nd ok(1) True by (simp add: no_drift_def)
      have rsv: "reserved d' sid = reserved d sid \<union> places (map (to_Seat rt) bseats)"
        by (simp add: reserved_def bk Un_commute)
      have nd': "no_drift d' sid"
        using True old rsv by (simp add: no_drift_def sel places_append)
      have pb': "printed_bookings rt d' sid"
        using pb rt by (simp add: printed_bookings_def bk list_all_iff printed_to_Seat)
      have "places (seats r') \<inter> places (seats ?new) = {}" if "r' \<in> set (bookings d sid)" for r'
      proof -
        have "places (seats r') \<subseteq> places (takenSeats screening)"
          using that old by (auto simp: reserved_def)
        moreover have "places (seats ?new) \<inter> places (takenSeats screening) = {}"
          using not_taken_free [OF rt ok(2)] by (auto simp: places_to_Seat)
        ultimately show ?thesis by auto
      qed
      then have "single_owner d' sid"
        using so by (simp add: single_owner_def bk disjoint_bookings_snoc)
      with uq nd' pb' show ?thesis by simp
    qed
  qed
qed

lemma cancel_preserves:
  assumes c: "cancel rt sid0 uid d = (res, d')"
      and u: "unique_ids d" and pb: "printed_bookings rt d sid"
      and nd: "no_drift d sid" and so: "single_owner d sid"
  shows "unique_ids d' \<and> printed_bookings rt d' sid \<and> no_drift d' sid \<and> single_owner d' sid"
proof (cases "select_reservation d sid0 uid")
  case None
  then have "d' = d"
    using c by (simp add: cancel_def)
  then show ?thesis using u pb nd so by simp
next
  case (Some r)
  let ?d1 = "delete_reservation d (r_id r)"
  have mem: "r \<in> set (reservationTable d)" and rs: "screeningId r = sid0"
    using select_reservation_Some [OF Some] by simp_all
  have d': "d' = (case select_screening d sid0 of
                    None \<Rightarrow> ?d1
                  | Some screening \<Rightarrow>
                      update_takenSeats ?d1 sid0
                        (filter (\<lambda>seat. find (same_seat rt seat) (seats r) = None)
                           (takenSeats screening)))"
    using cancel_ok [OF Some] c by simp
  have uq: "unique_ids d'"
    using u by (simp add: d' unique_ids_delete split: option.splits)
  have bk: "bookings d' x = bookings ?d1 x" for x
    by (simp add: d' split: option.splits)
  show ?thesis
  proof (cases "sid = sid0")
    case False
    have "bookings d' sid = bookings d sid"
      using bookings_delete_other [OF u mem] False rs by (simp add: bk)
    moreover from this have "reserved d' sid = reserved d sid"
      by (simp add: reserved_def)
    moreover have "select_screening d' sid = select_screening d sid"
      using False by (simp add: d' select_update_takenSeats split: option.splits)
    ultimately show ?thesis
      using uq pb nd so
      by (simp add: no_drift_def single_owner_def printed_bookings_def split: option.splits)
  next
    case True
    have bk': "bookings d' sid = filter (\<lambda>x. r_id x \<noteq> r_id r) (bookings d sid)"
      by (simp add: bk bookings_delete)
    have so': "single_owner d' sid"
      using so by (simp add: single_owner_def bk' disjoint_bookings_filter)
    have pb': "printed_bookings rt d' sid"
      using pb by (auto simp: printed_bookings_def bk' list_all_iff)
    have rb: "r \<in> set (bookings d sid)"
      using mem rs True by (simp add: bookings_def)
    have nd': "no_drift d' sid"
    proof (cases "select_screening d sid0")
      case None
      then show ?thesis
        using True by (simp add: d' no_drift_def)
    next
      case (Some screening)
      have "distinct (map r_id (bookings d sid))"
        using u by (simp add: unique_ids_def bookings_def distinct_map_filter)
      then have rel: "reserved d' sid = reserved d sid - places (seats r)"
        using so rb reserved_release [of "bookings d sid" r]
        by (simp add: reserved_def bk' single_owner_def)
      have old: "places (takenSeats screening) = reserved d sid"
        using nd Some True by (simp add: no_drift_def)
      have "list_all (printed_row rt) (seats r)"
        using pb rb by (simp add: printed_bookings_def list_all_iff)
      moreover have "list_all (plain_row rt) (takenSeats screening)"
        using taken_rows_printed [OF pb old] by (simp add: list_all_iff printed_plain)
      ultimately have
        "places (filter (\<lambda>seat. find (same_seat rt seat) (seats r) = None)
                   (takenSeats screening)) =
         places (takenSeats screening) - places (seats r)"
        by (simp add: release_filter places_filter)
      then show ?thesis
        using Some True rel old
        by (simp add: d' no_drift_def select_update_takenSeats)
    qed
    from uq pb' nd' so' show ?thesis by simp
  qed
qed

lemma run_preserves:
  assumes "round_trip rt"
  shows "unique_ids d \<Longrightarrow> printed_bookings rt d sid \<Longrightarrow> no_drift d sid \<Longrightarrow>
         single_owner d sid \<Longrightarrow> Thrown \<notin> set (fst (run rt d cs)) \<Longrightarrow>
         unique_ids (snd (run rt d cs)) \<and> printed_bookings rt (snd (run rt d cs)) sid
         \<and> no_drift (snd (run rt d cs)) sid \<and> single_owner (snd (run rt d cs)) sid"
proof (induction cs arbitrary: d)
  case Nil
  then show ?case by simp
next
  case (Cons c cs)
  obtain res d1 where h: "handle rt c d = (res, d1)"
    by (cases "handle rt c d")
  have nt: "res \<noteq> Thrown" and rest: "Thrown \<notin> set (fst (run rt d1 cs))"
    using Cons.prems(5) h by (auto split: prod.splits)
  have "unique_ids d1 \<and> printed_bookings rt d1 sid \<and> no_drift d1 sid \<and> single_owner d1 sid"
  proof (cases c)
    case (Reserve sid0 bseats uid uuid now)
    then show ?thesis
      using h nt Cons.prems(1-4) reserve_preserves [OF assms] by simp
  next
    case (Cancel sid0 uid)
    then show ?thesis
      using h Cons.prems(1-4) cancel_preserves by simp
  qed
  then have "unique_ids (snd (run rt d1 cs)) \<and> printed_bookings rt (snd (run rt d1 cs)) sid
             \<and> no_drift (snd (run rt d1 cs)) sid \<and> single_owner (snd (run rt d1 cs)) sid"
    using Cons.IH rest by blast
  then show ?case
    using h by (cases "run rt d1 cs") simp
qed

lemma fresh_screening:
  assumes "select_screening d sid = Some screening" "takenSeats screening = []"
      and "reservationTable d = []"
  shows "no_drift d sid \<and> single_owner d sid \<and> printed_bookings rt d sid \<and> unique_ids d"
  using assms
  by (simp add: no_drift_def single_owner_def unique_ids_def reserved_def bookings_def
        places_Nil printed_bookings_def)

text \<open>
  Claim C1, as the code has it. Take a screening whose taken-seat set is the union of
  the seats of its reservations, in a store where, besides, no seat of the screening is
  held by two reservations, the rows of the seats of its reservations are printed, as
  Reserve writes them, and reservation ids are the primary key of their table (all of
  which holds of a screening just created, \<open>fresh_screening\<close>). After any sequence of
  Reserve and Cancel calls, on this or other screenings, none of which the store
  rejected, the taken-seat set of the screening is again the union of the seats of its
  reservations.
\<close>

theorem no_drift_preserved:
  assumes "round_trip rt"
      and "no_drift d sid"
      and "single_owner d sid"
      and "printed_bookings rt d sid"
      and "unique_ids d"
      and "Thrown \<notin> set (fst (run rt d cs))"
  shows "no_drift (snd (run rt d cs)) sid"
  using run_preserves [OF assms(1) assms(5) assms(4) assms(2) assms(3) assms(6)] by simp

theorem no_drift_preserved_witness:
  "round_trip decimal
   \<and> no_drift fresh_db ''s1'' \<and> single_owner fresh_db ''s1''
   \<and> printed_bookings decimal fresh_db ''s1'' \<and> unique_ids fresh_db
   \<and> run decimal fresh_db
        [Reserve ''s1'' [\<lparr>b_row = 1, b_number = 1\<rparr>] ''u0'' ''r0'' 1,
         Reserve ''s1'' [\<lparr>b_row = 2, b_number = 1\<rparr>, \<lparr>b_row = 1, b_number = 2\<rparr>] ''u1'' ''r1'' 2,
         Reserve ''s1'' [\<lparr>b_row = 2, b_number = 1\<rparr>] ''u2'' ''r2'' 3,
         Cancel ''s1'' ''u1''] =
       ([Reply 200 (MessageWithId ''Reservation successful'' ''r0''),
         Reply 200 (MessageWithId ''Reservation successful'' ''r1''),
         Reply 400 (Error ''Seat row 2 number 1 is already taken''),
         Reply 200 (Message ''Reservation cancelled successfully'')],
        \<lparr>screeningTable = [screening_1\<lparr>takenSeats := [seat_1_1]\<rparr>],
         reservationTable = [reservation_0]\<rparr>)
   \<and> no_drift \<lparr>screeningTable = [screening_1\<lparr>takenSeats := [seat_1_1]\<rparr>],
               reservationTable = [reservation_0]\<rparr> ''s1''"
proof -
  let ?cs = "[Reserve ''s1'' [\<lparr>b_row = 1, b_number = 1\<rparr>] ''u0'' ''r0'' 1,
         Reserve ''s1'' [\<lparr>b_row = 2, b_number = 1\<rparr>, \<lparr>b_row = 1, b_number = 2\<rparr>] ''u1'' ''r1'' 2,
         Reserve ''s1'' [\<lparr>b_row = 2, b_number = 1\<rparr>] ''u2'' ''r2'' 3,
         Cancel ''s1'' ''u1'']"
  have a: "no_drift fresh_db ''s1''" and b: "single_owner fresh_db ''s1''"
    and p: "printed_bookings decimal fresh_db ''s1''" and c: "unique_ids fresh_db"
    by code_simp+
  have r: "run decimal fresh_db ?cs =
       ([Reply 200 (MessageWithId ''Reservation successful'' ''r0''),
         Reply 200 (MessageWithId ''Reservation successful'' ''r1''),
         Reply 400 (Error ''Seat row 2 number 1 is already taken''),
         Reply 200 (Message ''Reservation cancelled successfully'')],
        \<lparr>screeningTable = [screening_1\<lparr>takenSeats := [seat_1_1]\<rparr>],
         reservationTable = [reservation_0]\<rparr>)"
    by code_simp
  have e: "Thrown \<notin> set (fst (run decimal fresh_db ?cs))"
    unfolding r by simp
  have "no_drift (snd (run decimal fresh_db ?cs)) ''s1''"
    by (rule no_drift_preserved [OF round_trip_decimal a b p c e])
  then have "no_drift \<lparr>screeningTable = [screening_1\<lparr>takenSeats := [seat_1_1]\<rparr>],
               reservationTable = [reservation_0]\<rparr> ''s1''"
    unfolding r by simp
  with round_trip_decimal a b p c r show ?thesis
    by (intro conjI)
qed

theorem no_drift_counterexample:
  "no_drift double_booked ''s1''
   \<and> unique_ids double_booked
   \<and> printed_bookings decimal double_booked ''s1''
   \<and> run decimal double_booked [Cancel ''s1'' ''u1''] =
       ([Reply 200 (Message ''Reservation cancelled successfully'')],
        \<lparr>screeningTable = [screening_1],
         reservationTable =
           [\<lparr>r_id = ''r2'', userId = ''u2'', screeningId = ''s1'', seats = [seat_1_1],
             totalPrice = ''12.50'', createdAt = 2\<rparr>]\<rparr>)
   \<and> \<not> no_drift (snd (run decimal double_booked [Cancel ''s1'' ''u1''])) ''s1''"
  by code_simp

subsection \<open>Calls that overlap\<close>

text \<open>The handler is its three statements run without interruption.\<close>

lemma reserve_step_thrice:
  "(case reserve_step rt q Start d of (t1, d1) \<Rightarrow>
      case reserve_step rt q t1 d1 of (t2, d2) \<Rightarrow> reserve_step rt q t2 d2) =
   (case reserve rt (q_sid q) (q_seats q) (q_uid q) (q_uuid q) (q_now q) d of
      (res, d') \<Rightarrow> (Finished res, d'))"
  by (simp add: reserve_def Let_def split: option.splits)

text \<open>
  Once a call has written the seat, every statement that runs leaves the calls settled
  and takes the call it belongs to to its end: the call that wrote the seat to 200, any
  other to 400.
\<close>

lemma settled_step:
  assumes rt: "round_trip rt"
      and same: "\<forall>q \<in> set qs. q_sid q = sid \<and> q_seats q = [seat]"
      and w: "w < length qs"
      and st: "settled rt qs sid seat w sc (ts, d)"
      and i: "i < length qs"
  shows "\<exists>d'. reserve_step rt (qs ! i) (ts ! i) d =
                 ((if i = w
                   then Finished (Reply 200 (MessageWithId ''Reservation successful''
                                    (q_uuid (qs ! w))))
                   else Finished (Reply 400 (Error (taken_message rt seat)))), d')
           \<and> settled rt qs sid seat w sc
                (ts[i := (if i = w
                          then Finished (Reply 200 (MessageWithId ''Reservation successful''
                                           (q_uuid (qs ! w))))
                          else Finished (Reply 400 (Error (taken_message rt seat))))], d')"
proof -
  let ?won = "Finished (Reply 200 (MessageWithId ''Reservation successful'' (q_uuid (qs ! w))))"
  let ?lost = "Finished (Reply 400 (Error (taken_message rt seat))) :: 'a task"
  have len: "length ts = length qs"
    using st by (simp add: settled_def)
  obtain sc' where sc': "select_screening d sid = Some sc'"
      "requested rt seat \<in> places (takenSeats sc')"
    using st by (auto simp: settled_def split: option.splits)
  have others: "ts ! j = Start \<or> ts ! j = ?lost" if "j < length qs" "j \<noteq> w" for j
    using st that len by (auto simp: settled_def list_all_iff)
  have mine: "ts ! w = ?won
              \<or> (ts ! w = Updated sc \<and> q_uuid (qs ! w) \<notin> set (map r_id (reservationTable d)))"
    using st by (simp add: settled_def)
  have q: "q_sid (qs ! j) = sid" "q_seats (qs ! j) = [seat]" if "j < length qs" for j
    using same that by auto
  have taken: "first_taken rt (takenSeats sc') [seat] = Some seat"
  proof -
    obtain t where "t \<in> set (takenSeats sc')" "place t = requested rt seat"
      using sc'(2) by (auto simp: places_iff)
    then have "find (taken_by rt seat) (takenSeats sc') \<noteq> None"
      using rt by (auto simp: find_None_iff dest: taken_by_place)
    then show ?thesis by simp
  qed
  have keep: "settled rt qs sid seat w sc (ts[j := ?lost], d)" if "j < length qs" "j \<noteq> w" for j
    using st that len
    by (auto simp: settled_def list_all_iff nth_list_update split: option.splits)
  show ?thesis
  proof (cases "i = w")
    case False
    have "reserve_step rt (qs ! i) (ts ! i) d = (?lost, d)"
      using others [OF i False] q [OF i] sc'(1) taken by auto
    then show ?thesis
      using False keep [OF i False] by simp
  next
    case True
    from mine show ?thesis
    proof
      assume won: "ts ! w = ?won"
      then have "ts[w := ?won] = ts"
        by (metis list_update_id)
      then show ?thesis
        using True won st by simp
    next
      assume upd: "ts ! w = Updated sc \<and> q_uuid (qs ! w) \<notin> set (map r_id (reservationTable d))"
      let ?new = "\<lparr>r_id = q_uuid (qs ! w), userId = q_uid (qs ! w), screeningId = sid,
                   seats = map (to_Seat rt) [seat], totalPrice = price sc,
                   createdAt = q_now (qs ! w)\<rparr>"
      let ?d' = "d\<lparr>reservationTable := reservationTable d @ [?new]\<rparr>"
      have "sid \<in> set (map s_id (screeningTable d))"
        using select_Some_s_id [OF sc'(1)] by force
      then have step: "reserve_step rt (qs ! w) (ts ! w) d = (?won, ?d')"
        using upd q [OF w] by (simp add: insert_reservation_def)
      have "settled rt qs sid seat w sc (ts[w := ?won], ?d')"
        using st w len sc'
        by (auto simp: settled_def list_all_iff nth_list_update select_ignores_reservations)
      then show ?thesis
        using True step by auto
    qed
  qed
qed

lemma exec_settled:
  assumes rt: "round_trip rt"
      and same: "\<forall>q \<in> set qs. q_sid q = sid \<and> q_seats q = [seat]"
      and w: "w < length qs"
  shows "settled rt qs sid seat w sc (ts, d) \<Longrightarrow>
         fst (exec rt qs sched (ts, d)) =
           map (\<lambda>j. if j \<in> set sched
                     then (if j = w
                           then Finished (Reply 200 (MessageWithId ''Reservation successful''
                                            (q_uuid (qs ! w))))
                           else Finished (Reply 400 (Error (taken_message rt seat))))
                     else ts ! j) [0..<length ts]"
proof (induction sched arbitrary: ts d)
  case Nil
  have "map ((!) ts) [0..<length ts] = ts"
    by (rule map_nth)
  then show ?case by simp
next
  case (Cons i sched)
  let ?fin = "\<lambda>j. if j = w
                   then Finished (Reply 200 (MessageWithId ''Reservation successful''
                                    (q_uuid (qs ! w))))
                   else Finished (Reply 400 (Error (taken_message rt seat)))"
  have len: "length ts = length qs"
    using Cons.prems by (simp add: settled_def)
  show ?case
  proof (cases "i < length qs")
    case False
    then have "fst (exec rt qs (i # sched) (ts, d)) = fst (exec rt qs sched (ts, d))"
      by simp
    also have "\<dots> = map (\<lambda>j. if j \<in> set sched then ?fin j else ts ! j) [0..<length ts]"
      by (rule Cons.IH [OF Cons.prems])
    also have "\<dots> = map (\<lambda>j. if j \<in> set (i # sched) then ?fin j else ts ! j) [0..<length ts]"
      using False len by (intro map_cong) auto
    finally show ?thesis .
  next
    case True
    from settled_step [OF rt same w Cons.prems True] obtain d' where
      step: "reserve_step rt (qs ! i) (ts ! i) d = (?fin i, d')" and
      st': "settled rt qs sid seat w sc (ts[i := ?fin i], d')"
      by blast
    have "fst (exec rt qs (i # sched) (ts, d)) = fst (exec rt qs sched (ts[i := ?fin i], d'))"
      using True len step by simp
    also have "\<dots> = map (\<lambda>j. if j \<in> set sched then ?fin j else ts[i := ?fin i] ! j)
                        [0..<length (ts[i := ?fin i])]"
      by (rule Cons.IH [OF st'])
    also have "\<dots> = map (\<lambda>j. if j \<in> set (i # sched) then ?fin j else ts ! j) [0..<length ts]"
      using True len by (auto simp: nth_list_update)
    finally show ?thesis .
  qed
qed

lemma one_success:
  assumes "w < length xs" "P y" "\<forall>x \<in> set xs. \<not> P x"
  shows "length (filter P (xs[w := y])) = 1"
proof -
  have "filter P (take w xs) = []" "filter P (drop (Suc w) xs) = []"
    using assms(3) by (auto simp: filter_empty_conv dest: in_set_takeD in_set_dropD)
  then show ?thesis
    using assms(1,2) by (simp add: upd_conv_take_nth_drop)
qed

text \<open>
  Claim C2, as the code has it. The handler holds no lock and opens no transaction, and
  it has no outcome for a concurrent update: the calls that succeed are those that read
  the screening before any call has written the seat. Take \<open>N\<close> calls for the same
  single seat of a screening, free at the start (no stored row being another spelling
  of a number), whose statements run in any order in which the call that reads the
  screening first also writes the seat before another call reads the screening, and in
  which every call runs to its end. Then that call answers 200 (its identifier being
  unused) and each of the other \<open>N - 1\<close> answers 400 with the message for the seat:
  exactly one call succeeds. The later statements of the calls may overlap in any way.
\<close>

theorem one_winner_if_first_writes_first:
  assumes "round_trip rt"
      and "select_screening d sid = Some screening"
      and "list_all (plain_row rt) (takenSeats screening)"
      and "requested rt seat \<notin> places (takenSeats screening)"
      and "\<forall>q \<in> set qs. q_sid q = sid \<and> q_seats q = [seat]"
      and "w < length qs"
      and "q_uuid (qs ! w) \<notin> set (map r_id (reservationTable d))"
      and "\<forall>j < length qs. j \<in> set rest"
  shows "fst (exec rt qs (w # w # rest) (replicate (length qs) Start, d)) =
           (replicate (length qs) (Finished (Reply 400 (Error (taken_message rt seat)))))
             [w := Finished (Reply 200 (MessageWithId ''Reservation successful''
                                   (q_uuid (qs ! w))))]
         \<and> length (filter succeeded
              (fst (exec rt qs (w # w # rest) (replicate (length qs) Start, d)))) = 1"
proof -
  let ?n = "length qs"
  let ?won = "Finished (Reply 200 (MessageWithId ''Reservation successful'' (q_uuid (qs ! w))))"
  let ?lost = "Finished (Reply 400 (Error (taken_message rt seat))) :: 'a task"
  let ?ts = "(replicate ?n Start)[w := Updated screening]"
  let ?d1 = "update_takenSeats d sid (takenSeats screening @ map (to_Seat rt) [seat])"
  have q: "q_sid (qs ! w) = sid" "q_seats (qs ! w) = [seat]"
    using assms(5,6) by auto
  have free: "first_taken rt (takenSeats screening) [seat] = None"
    using assms(3,4) by (intro free_not_taken) simp_all
  have s1: "reserve_step rt (qs ! w) Start d = (Selected screening, d)"
    using assms(2) q free by simp
  have s2: "reserve_step rt (qs ! w) (Selected screening) d = (Updated screening, ?d1)"
    using q by simp
  have two: "exec rt qs (w # w # rest) (replicate ?n Start, d) = exec rt qs rest (?ts, ?d1)"
    using assms(6) s1 s2 by simp
  have sel: "select_screening ?d1 sid =
               Some (screening\<lparr>takenSeats := takenSeats screening @ map (to_Seat rt) [seat]\<rparr>)"
    using assms(2) by (simp add: select_update_takenSeats)
  have here: "requested rt seat \<in> places (takenSeats screening @ map (to_Seat rt) [seat])"
    by (simp add: places_iff place_to_Seat)
  have st: "settled rt qs sid seat w screening (?ts, ?d1)"
    using assms(6,7) sel here
    by (auto simp: settled_def list_all_iff nth_list_update)
  have "fst (exec rt qs rest (?ts, ?d1)) =
          map (\<lambda>j. if j \<in> set rest then (if j = w then ?won else ?lost) else ?ts ! j)
            [0..<length ?ts]"
    by (rule exec_settled [OF assms(1,5,6) st])
  also have "\<dots> = (replicate ?n ?lost)[w := ?won]"
    using assms(8) by (intro nth_equalityI) (auto simp: nth_list_update)
  finally have res: "fst (exec rt qs (w # w # rest) (replicate ?n Start, d)) =
                       (replicate ?n ?lost)[w := ?won]"
    using two by simp
  have "length (filter succeeded ((replicate ?n ?lost)[w := ?won])) = 1"
    using assms(6) by (intro one_success) (simp_all add: succeeded_def)
  with res show ?thesis by simp
qed

theorem one_winner_if_first_writes_first_witness:
  "round_trip decimal
   \<and> select_screening fresh_db ''s1'' = Some screening_1
   \<and> list_all (plain_row decimal) (takenSeats screening_1)
   \<and> requested decimal \<lparr>b_row = 1, b_number = 1\<rparr> \<notin> places (takenSeats screening_1)
   \<and> q_uuid request_1 \<notin> set (map r_id (reservationTable fresh_db))
   \<and> fst (exec decimal [request_1, request_2, request_3] [0, 0, 1, 2, 0, 1, 2, 1, 2]
            ([Start, Start, Start], fresh_db)) =
       [Finished (Reply 200 (MessageWithId ''Reservation successful'' ''r1'')),
        Finished (Reply 400 (Error ''Seat row 1 number 1 is already taken'')),
        Finished (Reply 400 (Error ''Seat row 1 number 1 is already taken''))]"
proof -
  let ?qs = "[request_1, request_2, request_3]"
  let ?rest = "[1, 2, 0, 1, 2, 1, 2] :: nat list"
  have sc: "select_screening fresh_db ''s1'' = Some screening_1"
    by (simp add: select_screening_def fresh_db_def screening_1_def)
  have plain: "list_all (plain_row decimal) (takenSeats screening_1)"
    by (simp add: screening_1_def)
  have free: "requested decimal \<lparr>b_row = 1, b_number = 1\<rparr> \<notin> places (takenSeats screening_1)"
    by (simp add: screening_1_def places_Nil)
  have same: "\<forall>q \<in> set ?qs. q_sid q = ''s1'' \<and> q_seats q = [\<lparr>b_row = 1, b_number = 1\<rparr>]"
    by (simp add: request_1_def request_2_def request_3_def)
  have w: "0 < length ?qs"
    by simp
  have fresh: "q_uuid (?qs ! 0) \<notin> set (map r_id (reservationTable fresh_db))"
    by (simp add: fresh_db_def)
  have all: "\<forall>j < length ?qs. j \<in> set ?rest"
    by (auto simp: less_Suc_eq numeral_3_eq_3)
  have msg: "taken_message decimal \<lparr>b_row = 1, b_number = 1\<rparr> =
               ''Seat row 1 number 1 is already taken''"
    by code_simp
  have "q_uuid request_1 = ''r1''"
    by (simp add: request_1_def)
  then show ?thesis
    using round_trip_decimal sc plain free fresh
      one_winner_if_first_writes_first [OF round_trip_decimal sc plain free same w fresh all]
    by (simp add: msg numeral_3_eq_3)
qed

theorem double_booking_counterexample:
  "exec decimal [request_1, request_2] [0, 1, 0, 1, 0, 1] ([Start, Start], fresh_db) =
     ([Finished (Reply 200 (MessageWithId ''Reservation successful'' ''r1'')),
       Finished (Reply 200 (MessageWithId ''Reservation successful'' ''r2''))],
      double_booked)"
  by code_simp

end
